theory Spec2Isabelle
  imports Complex_Main "HOL-Library.AList"
begin

section \<open>Values of the host language\<close>

text \<open>
  The code is TypeScript. Its numbers are modelled by \<open>jsnum\<close>: a real number (the exact
  value of the double; rounding is not modelled), the two infinities, or NaN.
\<close>

datatype jsnum = NaN | NegInf | Fin real | PosInf

text \<open>The order of the non-NaN numbers.\<close>

fun js_le :: "jsnum \<Rightarrow> jsnum \<Rightarrow> bool" where
  "js_le NaN _ = False"
| "js_le _ NaN = False"
| "js_le NegInf _ = True"
| "js_le _ PosInf = True"
| "js_le (Fin x) (Fin y) = (x \<le> y)"
| "js_le _ _ = False"

text \<open>\<open>Math.min(a, b)\<close> and \<open>Math.max(a, b)\<close> on numbers: NaN if an argument is NaN.\<close>

definition Math_min :: "jsnum \<Rightarrow> jsnum \<Rightarrow> jsnum" where
  "Math_min a b = (if a = NaN \<or> b = NaN then NaN else if js_le a b then a else b)"

definition Math_max :: "jsnum \<Rightarrow> jsnum \<Rightarrow> jsnum" where
  "Math_max a b = (if a = NaN \<or> b = NaN then NaN else if js_le a b then b else a)"

text \<open>
  The sign of \<open>a - b\<close> as \<open>Array.prototype.sort\<close> reads the result of a comparator:
  negative, zero or positive, with NaN counted as zero.
\<close>

fun minus_sign :: "jsnum \<Rightarrow> jsnum \<Rightarrow> int" where
  "minus_sign NaN _ = 0"
| "minus_sign _ NaN = 0"
| "minus_sign (Fin x) (Fin y) = (if x < y then - 1 else if y < x then 1 else 0)"
| "minus_sign PosInf PosInf = 0"
| "minus_sign NegInf NegInf = 0"
| "minus_sign PosInf _ = 1"
| "minus_sign _ PosInf = - 1"
| "minus_sign NegInf _ = - 1"
| "minus_sign _ NegInf = 1"

text \<open>
  A value as \<open>JSON.parse\<close> returns it, and \<open>undefined\<close>, which reading a missing property
  gives. An object is its list of own properties.
\<close>

datatype jsval =
    JUndefined
  | JNull
  | JBool bool
  | JNum jsnum
  | JStr string
  | JArr "jsval list"
  | JObj "(string \<times> jsval) list"

text \<open>Truthiness, as \<open>v ? a : b\<close>, \<open>v || d\<close> and \<open>!v\<close> test it.\<close>

fun truthy :: "jsval \<Rightarrow> bool" where
  "truthy JUndefined = False"
| "truthy JNull = False"
| "truthy (JBool b) = b"
| "truthy (JNum n) = (n \<noteq> NaN \<and> n \<noteq> Fin 0)"
| "truthy (JStr s) = (s \<noteq> [])"
| "truthy (JArr _) = True"
| "truthy (JObj _) = True"

text \<open>
  Reading the property \<open>v.k\<close>: a TypeError (\<open>None\<close>) on \<open>null\<close> and \<open>undefined\<close>, the own
  property of an object, \<open>undefined\<close> otherwise. Inherited properties are not modelled; the
  code reads only \<open>from\<close>, \<open>to\<close>, \<open>date\<close> and \<open>color\<close>, which no prototype defines.
\<close>

fun getProp :: "jsval \<Rightarrow> string \<Rightarrow> jsval option" where
  "getProp JUndefined k = None"
| "getProp JNull k = None"
| "getProp (JObj kvs) k = Some (case map_of kvs k of None \<Rightarrow> JUndefined | Some v \<Rightarrow> v)"
| "getProp _ k = Some JUndefined"

text \<open>
  A \<open>Date\<close> is modelled by its time value, the milliseconds since the epoch; a \<open>Date\<close> holding
  NaN (an invalid date) is not modelled.

  The built-in functions of the host that the code calls on decoded payloads are parameters of
  the model, so every theorem holds for each implementation of them. \<open>None\<close> stands for a
  thrown exception. So are the collation \<open>a.localeCompare(b)\<close> of the host's locale and its time
  zone: \<open>LocalTime\<close> maps a time value to the local time and \<open>UTC\<close> maps a local time
  back, as the language standard names them.
\<close>

type_synonym jsdate = int

record host =
  JSON_parse :: "string \<Rightarrow> jsval option"
  ToNumber :: "jsval \<Rightarrow> jsnum option"
  new_Date :: "jsval \<Rightarrow> jsdate option"
  parseFloat :: "jsval \<Rightarrow> jsnum option"
  localeCompare :: "string \<Rightarrow> string \<Rightarrow> int"
  LocalTime :: "int \<Rightarrow> int"
  UTC :: "int \<Rightarrow> int"

subsection \<open>Strings\<close>

text \<open>
  Strings are lists of 8-bit characters. \<open>toLowerCase\<close> is modelled on the ASCII letters.
\<close>

definition lower_char :: "char \<Rightarrow> char" where
  "lower_char c =
     (case map_of (zip ''ABCDEFGHIJKLMNOPQRSTUVWXYZ'' ''abcdefghijklmnopqrstuvwxyz'') c of
        None \<Rightarrow> c
      | Some l \<Rightarrow> l)"

definition toLowerCase :: "string \<Rightarrow> string" where
  "toLowerCase s = map lower_char s"

text \<open>\<open>s.includes(sub)\<close>: \<open>sub\<close> occurs in \<open>s\<close> as a contiguous substring.\<close>

fun str_includes :: "string \<Rightarrow> string \<Rightarrow> bool" where
  "str_includes [] sub = (sub = [])"
| "str_includes (c # cs) sub = (take (length sub) (c # cs) = sub \<or> str_includes cs sub)"

text \<open>
  The lexicographic order of the character codes (-1, 0 or 1): the collation of the host of
  the examples. The root collation of the Unicode standard gives the same signs on the
  strings the examples compare.
\<close>

fun compare_codes :: "string \<Rightarrow> string \<Rightarrow> int" where
  "compare_codes [] [] = 0"
| "compare_codes [] (y # ys) = - 1"
| "compare_codes (x # xs) [] = 1"
| "compare_codes (x # xs) (y # ys) =
     (if (of_char x :: nat) < of_char y then - 1
      else if (of_char y :: nat) < of_char x then 1
      else compare_codes xs ys)"

subsection \<open>Dates\<close>

text \<open>
  The calendar arithmetic of the \<open>moment\<close> library as the chart and the bar use it, for a host
  whose zone has a constant offset from UTC: adding \<open>n\<close> days adds \<open>n\<close> times 86400000 ms, and
  \<open>a.diff(b, 'days')\<close> is the difference in days truncated toward zero.
\<close>

definition ms_per_day :: int where
  "ms_per_day = 86400000"

definition moment_add_days :: "jsdate \<Rightarrow> int \<Rightarrow> jsdate" where
  "moment_add_days d n = d + n * ms_per_day"

definition moment_diff_days :: "jsdate \<Rightarrow> jsdate \<Rightarrow> int" where
  "moment_diff_days a b =
     (if b \<le> a then (a - b) div ms_per_day else - ((b - a) div ms_per_day))"

text \<open>
  \<open>moment(d).add(n, 'days').toDate()\<close> in the zone of the host, as the drag handler uses it:
  when \<open>n\<close> is not zero, the day of the month of the local time is set \<open>n\<close> days on and the
  time of day is kept (\<open>Date.prototype.setDate\<close>), so the local time moves by \<open>n\<close> times
  86400000 ms; when \<open>n\<close> is zero the date is left as it is. In a zone with a constant offset
  this is \<open>moment_add_days\<close>.
\<close>

definition moment_add :: "host \<Rightarrow> jsdate \<Rightarrow> int \<Rightarrow> jsdate" where
  "moment_add h d n = (if n = 0 then d else UTC h (LocalTime h d + n * ms_per_day))"

text \<open>
  The day number of a civil date (proleptic Gregorian calendar, day 0 is 1970-01-01) and back,
  and \<open>Date.UTC(y, m - 1, d)\<close>, the time value of midnight UTC on that date.
\<close>

definition days_from_civil :: "int \<Rightarrow> int \<Rightarrow> int \<Rightarrow> int" where
  "days_from_civil y m d =
     (let y' = (if m \<le> 2 then y - 1 else y);
          era = y' div 400;
          yoe = y' - era * 400;
          doy = (153 * (if 2 < m then m - 3 else m + 9) + 2) div 5 + d - 1;
          doe = yoe * 365 + yoe div 4 - yoe div 100 + doy
      in era * 146097 + doe - 719468)"

definition civil_from_days :: "int \<Rightarrow> int \<times> int \<times> int" where
  "civil_from_days z0 =
     (let z = z0 + 719468;
          era = z div 146097;
          doe = z - era * 146097;
          yoe = (doe - doe div 1460 + doe div 36524 - doe div 146096) div 365;
          doy = doe - (365 * yoe + yoe div 4 - yoe div 100);
          mp = (5 * doy + 2) div 153;
          d = doy - (153 * mp + 2) div 5 + 1;
          m = (if mp < 10 then mp + 3 else mp - 9)
      in (if m \<le> 2 then yoe + era * 400 + 1 else yoe + era * 400, m, d))"

definition Date_UTC :: "int \<Rightarrow> int \<Rightarrow> int \<Rightarrow> jsdate" where
  "Date_UTC y m d = days_from_civil y m d * ms_per_day"

text \<open>
  \<open>String(d)\<close> for a date, as a host in the UTC zone prints it, for example
  \<open>Fri Mar 01 2024 00:00:00 GMT+0000 (Coordinated Universal Time)\<close>. In another zone the
  fields are those of the local time and the offset and the name of the zone differ; the
  string starts with the English name of a week day in every zone.
\<close>

fun dec :: "nat \<Rightarrow> string" where
  "dec n = (if n < 10 then [char_of (48 + n)] else dec (n div 10) @ [char_of (48 + n mod 10)])"

definition pad :: "nat \<Rightarrow> nat \<Rightarrow> string" where
  "pad w n = replicate (w - length (dec n)) (CHR ''0'') @ dec n"

definition Date_toString :: "jsdate \<Rightarrow> string" where
  "Date_toString t =
     (let days = t div ms_per_day;
          ms = t mod ms_per_day;
          (y, m, d) = civil_from_days days
      in [''Sun'', ''Mon'', ''Tue'', ''Wed'', ''Thu'', ''Fri'', ''Sat''] ! nat ((days + 4) mod 7)
         @ '' ''
         @ [''Jan'', ''Feb'', ''Mar'', ''Apr'', ''May'', ''Jun'', ''Jul'', ''Aug'', ''Sep'',
            ''Oct'', ''Nov'', ''Dec''] ! nat (m - 1)
         @ '' '' @ pad 2 (nat d)
         @ '' '' @ (if y < 0 then ''-'' else []) @ pad 4 (nat \<bar>y\<bar>)
         @ '' '' @ pad 2 (nat (ms div 3600000))
         @ '':'' @ pad 2 (nat ((ms div 60000) mod 60))
         @ '':'' @ pad 2 (nat ((ms div 1000) mod 60))
         @ '' GMT+0000 (Coordinated Universal Time)'')"

section \<open>The data model (types/index.ts)\<close>

record column_value =
  cv_id :: string
  cv_title :: string
  cv_type :: string
  cv_value :: "string option"
  cv_text :: string

record item_group =
  group_id :: string
  group_title :: string
  group_color :: string
  group_position :: string

text \<open>\<open>MondayItem\<close>; the back reference \<open>board\<close> is never read and is left out.\<close>

datatype item =
  Item (item_id: string) (item_name: string) (column_values: "column_value list")
       (item_group: "item_group option") (subitems: "item list")

record board =
  board_id :: string
  board_name :: string
  board_kind :: string

record timeline_data =
  tl_from :: "jsdate option"
  tl_to :: "jsdate option"

record mirror_mapping =
  sourceColumnId :: string
  sourceColumnTitle :: string
  sourceBoardId :: string
  sourceBoardName :: string
  mirrorColumnId :: string
  mirrorColumnTitle :: string
  targetBoardId :: string

text \<open>One entry of a task's \<open>mirrorData\<close>, and the object itself as a list of its properties.\<close>

record mirror_entry =
  md_displayValue :: string
  md_rawValue :: jsval
  md_sourceColumnTitle :: string
  md_sourceBoardName :: string
  md_type :: string

type_synonym mirror_data = "(string \<times> mirror_entry) list"

datatype direction = asc | desc

record settings =
  colorByColumn :: "string option"
  groupByColumn :: "string option"
  sortByColumn :: "string option"
  sortDirection :: "direction option"
  showSubitems :: bool
  timelineColumn :: "string option"

text \<open>\<open>GanttTask\<close>; the field \<open>children\<close> is never written and is left out.\<close>

record task =
  task_id :: string
  task_name :: string
  startDate :: "jsdate option"
  endDate :: "jsdate option"
  progress :: jsnum
  color :: jsval
  task_group :: string
  boardId :: string
  boardName :: string
  parentId :: "string option"
  originalItem :: item
  mirrorData :: mirror_data

section \<open>The data processor (DataProcessor)\<close>

definition no_timeline :: timeline_data where
  "no_timeline = \<lparr>tl_from = None, tl_to = None\<rparr>"

text \<open>
  The expression \<open>v.k ? new Date(v.k) : null\<close>: \<open>None\<close> when it throws, \<open>Some None\<close> for
  \<open>null\<close>.
\<close>

definition date_of_prop :: "host \<Rightarrow> jsval \<Rightarrow> string \<Rightarrow> jsdate option option" where
  "date_of_prop h v k =
     (case getProp v k of
        None \<Rightarrow> None
      | Some x \<Rightarrow>
          if truthy x then (case new_Date h x of None \<Rightarrow> None | Some d \<Rightarrow> Some (Some d))
          else Some None)"

definition extractTimelineData :: "host \<Rightarrow> item \<Rightarrow> string option \<Rightarrow> timeline_data" where
  "extractTimelineData h item timelineColumnId =
     (let timelineColumn =
            (if timelineColumnId \<noteq> None \<and> timelineColumnId \<noteq> Some []
             then find (\<lambda>cv. Some (cv_id cv) = timelineColumnId) (column_values item)
             else find (\<lambda>cv. cv_type cv = ''timeline'' \<or> cv_type cv = ''date''
                              \<or> cv_type cv = ''creation_log'') (column_values item))
      in case timelineColumn of
           None \<Rightarrow> no_timeline
         | Some c \<Rightarrow>
             (case cv_value c of
                None \<Rightarrow> no_timeline
              | Some v \<Rightarrow>
                  if v = [] then no_timeline
                  else if cv_type c = ''timeline'' then
                    (case JSON_parse h v of
                       None \<Rightarrow> no_timeline
                     | Some timelineValue \<Rightarrow>
                         (case date_of_prop h timelineValue ''from'' of
                            None \<Rightarrow> no_timeline
                          | Some f \<Rightarrow>
                              (case date_of_prop h timelineValue ''to'' of
                                 None \<Rightarrow> no_timeline
                               | Some t \<Rightarrow> \<lparr>tl_from = f, tl_to = t\<rparr>)))
                  else if cv_type c = ''date'' then
                    (case JSON_parse h v of
                       None \<Rightarrow> no_timeline
                     | Some dateValue \<Rightarrow>
                         (case date_of_prop h dateValue ''date'' of
                            None \<Rightarrow> no_timeline
                          | Some d \<Rightarrow> \<lparr>tl_from = d, tl_to = d\<rparr>))
                  else no_timeline))"

text \<open>
  \<open>extractMirrorData\<close>. The field \<open>mirrorMappings\<close> of the processor is the argument \<open>mm\<close>.
  An entry is written for every mapping whose column has a non-empty payload; when the payload
  does not parse, the raw value is the payload string itself.
\<close>

definition mirror_step :: "host \<Rightarrow> item \<Rightarrow> mirror_mapping \<Rightarrow> mirror_data \<Rightarrow> mirror_data" where
  "mirror_step h item mapping md =
     (case find (\<lambda>cv. cv_id cv = mirrorColumnId mapping) (column_values item) of
        None \<Rightarrow> md
      | Some mirrorColumn \<Rightarrow>
          (case cv_value mirrorColumn of
             None \<Rightarrow> md
           | Some v \<Rightarrow>
               if v = [] then md
               else AList.update (mirrorColumnId mapping)
                      \<lparr>md_displayValue = cv_text mirrorColumn,
                       md_rawValue = (case JSON_parse h v of Some parsedValue \<Rightarrow> parsedValue
                                      | None \<Rightarrow> JStr v),
                       md_sourceColumnTitle = sourceColumnTitle mapping,
                       md_sourceBoardName = sourceBoardName mapping,
                       md_type = cv_type mirrorColumn\<rparr> md))"

definition extractMirrorData ::
  "host \<Rightarrow> (string \<rightharpoonup> mirror_mapping list) \<Rightarrow> item \<Rightarrow> string \<Rightarrow> mirror_data" where
  "extractMirrorData h mm item bid =
     (let mappings = (case mm bid of None \<Rightarrow> [] | Some ms \<Rightarrow> ms)
      in fold (mirror_step h item) mappings [])"

definition extractProgress :: "host \<Rightarrow> item \<Rightarrow> jsnum" where
  "extractProgress h item =
     (case find (\<lambda>cv. cv_type cv = ''numeric'' \<and>
                   (str_includes (toLowerCase (cv_title cv)) ''progress'' \<or>
                    str_includes (toLowerCase (cv_title cv)) ''complete'' \<or>
                    str_includes (toLowerCase (cv_title cv)) ''%''))
             (column_values item) of
        None \<Rightarrow> Fin 0
      | Some progressColumn \<Rightarrow>
          (case cv_value progressColumn of
             None \<Rightarrow> Fin 0
           | Some v \<Rightarrow>
               if v = [] then Fin 0
               else
                 (case JSON_parse h v of
                    None \<Rightarrow> Fin 0
                  | Some numericValue \<Rightarrow>
                      (case ToNumber h (if truthy numericValue then numericValue
                                        else JNum (Fin 0)) of
                         None \<Rightarrow> Fin 0
                       | Some n \<Rightarrow> Math_max (Fin 0) (Math_min (Fin 100) n)))))"

definition default_color :: jsval where
  "default_color = JStr ''#037f4c''"

text \<open>The expression \<open>data.color || '#037f4c'\<close>, with the default when reading throws.\<close>

definition color_or_default :: "jsval \<Rightarrow> jsval" where
  "color_or_default d =
     (case getProp d ''color'' of
        None \<Rightarrow> default_color
      | Some c \<Rightarrow> if truthy c then c else default_color)"

definition parsed_color :: "host \<Rightarrow> jsval \<Rightarrow> jsval" where
  "parsed_color h raw =
     (case (case raw of JStr s \<Rightarrow> JSON_parse h s | _ \<Rightarrow> Some raw) of
        None \<Rightarrow> default_color
      | Some colorData \<Rightarrow> color_or_default colorData)"

definition getColorFromValue :: "host \<Rightarrow> mirror_entry \<Rightarrow> jsval" where
  "getColorFromValue h mirrorValue =
     (if md_type mirrorValue = ''color'' \<and> truthy (md_rawValue mirrorValue)
      then parsed_color h (md_rawValue mirrorValue)
      else if md_type mirrorValue = ''status'' \<and> truthy (md_rawValue mirrorValue)
      then parsed_color h (md_rawValue mirrorValue)
      else default_color)"

definition getColorFromColumnValue :: "host \<Rightarrow> column_value \<Rightarrow> jsval" where
  "getColorFromColumnValue h column =
     (case cv_value column of
        None \<Rightarrow> default_color
      | Some v \<Rightarrow>
          if v = [] then default_color
          else if cv_type column = ''color'' \<or> cv_type column = ''status''
                  \<or> cv_type column = ''dropdown''
          then (case JSON_parse h v of
                  None \<Rightarrow> default_color
                | Some colorData \<Rightarrow> color_or_default colorData)
          else default_color)"

definition extractColor :: "host \<Rightarrow> item \<Rightarrow> string option \<Rightarrow> mirror_data \<Rightarrow> jsval" where
  "extractColor h item colorByColumnId md =
     (let byColumn =
            (case colorByColumnId of
               None \<Rightarrow> None
             | Some cid \<Rightarrow>
                 if cid = [] then None
                 else
                   (case map_of md cid of
                      Some mirrorValue \<Rightarrow> Some (getColorFromValue h mirrorValue)
                    | None \<Rightarrow>
                        (case find (\<lambda>cv. cv_id cv = cid) (column_values item) of
                           Some colorColumn \<Rightarrow> Some (getColorFromColumnValue h colorColumn)
                         | None \<Rightarrow> None)))
      in case byColumn of
           Some c \<Rightarrow> c
         | None \<Rightarrow>
             (case item_group item of
                Some g \<Rightarrow> JStr (group_color g)
              | None \<Rightarrow> default_color))"

definition or_else :: "string \<Rightarrow> string \<Rightarrow> string" where
  "or_else s d = (if s \<noteq> [] then s else d)"

definition extractGroup :: "item \<Rightarrow> string option \<Rightarrow> mirror_data \<Rightarrow> string" where
  "extractGroup item groupByColumnId md =
     (let byColumn =
            (case groupByColumnId of
               None \<Rightarrow> None
             | Some gid \<Rightarrow>
                 if gid = [] then None
                 else
                   (case map_of md gid of
                      Some mirrorValue \<Rightarrow> Some (or_else (md_displayValue mirrorValue) ''Unknown'')
                    | None \<Rightarrow>
                        (case find (\<lambda>cv. cv_id cv = gid) (column_values item) of
                           Some groupColumn \<Rightarrow> Some (or_else (cv_text groupColumn) ''Unknown'')
                         | None \<Rightarrow> None)))
      in case byColumn of
           Some g \<Rightarrow> g
         | None \<Rightarrow>
             (case item_group item of
                Some g \<Rightarrow> or_else (group_title g) ''No Group''
              | None \<Rightarrow> ''No Group''))"

definition convertItemToGanttTask ::
  "host \<Rightarrow> (string \<rightharpoonup> mirror_mapping list) \<Rightarrow> item \<Rightarrow> board \<Rightarrow> settings \<Rightarrow> string option
     \<Rightarrow> task option" where
  "convertItemToGanttTask h mm item b st pid =
     (let timelineData = extractTimelineData h item (timelineColumn st)
      in if tl_from timelineData = None \<and> tl_to timelineData = None then None
         else
           (let md = extractMirrorData h mm item (board_id b)
            in Some \<lparr>task_id = item_id item,
                     task_name = item_name item,
                     startDate = tl_from timelineData,
                     endDate = tl_to timelineData,
                     progress = extractProgress h item,
                     color = extractColor h item (colorByColumn st) md,
                     task_group = extractGroup item (groupByColumn st) md,
                     boardId = board_id b,
                     boardName = board_name b,
                     parentId = pid,
                     originalItem = item,
                     mirrorData = md\<rparr>))"

subsection \<open>The comparator of sortTasks\<close>

text \<open>
  The two values the comparator extracts for a pair of tasks: either two numbers (a numeric or
  rating column), or two values that are each \<open>null\<close>, a string or a date.
\<close>

datatype sortval = SNull | SStr string | SDate jsdate

datatype sortpair = Numbers jsnum jsnum | Values sortval sortval

definition date_value :: "jsdate option \<Rightarrow> sortval" where
  "date_value d = (case d of None \<Rightarrow> SNull | Some t \<Rightarrow> SDate t)"

definition column_text :: "column_value option \<Rightarrow> string" where
  "column_text c = (case c of None \<Rightarrow> [] | Some cv \<Rightarrow> cv_text cv)"

text \<open>The expression \<open>parseFloat(JSON.parse(c?.value || '0'))\<close>: \<open>None\<close> when it throws.\<close>

definition column_number :: "host \<Rightarrow> column_value option \<Rightarrow> jsnum option" where
  "column_number h c =
     (let payload = (case c of
                       None \<Rightarrow> ''0''
                     | Some cv \<Rightarrow> (case cv_value cv of
                                    None \<Rightarrow> ''0''
                                  | Some v \<Rightarrow> if v = [] then ''0'' else v))
      in case JSON_parse h payload of None \<Rightarrow> None | Some v \<Rightarrow> parseFloat h v)"

definition sort_values :: "host \<Rightarrow> string \<Rightarrow> task \<Rightarrow> task \<Rightarrow> sortpair" where
  "sort_values h sortBy a b =
     (if sortBy = ''name'' then Values (SStr (task_name a)) (SStr (task_name b))
      else if sortBy = ''start_date'' then
        Values (date_value (startDate a)) (date_value (startDate b))
      else if sortBy = ''end_date'' then
        Values (date_value (endDate a)) (date_value (endDate b))
      else
        (let aColumn = find (\<lambda>cv. cv_id cv = sortBy) (column_values (originalItem a));
             bColumn = find (\<lambda>cv. cv_id cv = sortBy) (column_values (originalItem b))
         in if (case aColumn of
                  None \<Rightarrow> False
                | Some cv \<Rightarrow> cv_type cv = ''numeric'' \<or> cv_type cv = ''rating'')
            then (case column_number h aColumn of
                    None \<Rightarrow> Numbers (Fin 0) (Fin 0)
                  | Some x \<Rightarrow>
                      (case column_number h bColumn of
                         None \<Rightarrow> Numbers (Fin 0) (Fin 0)
                       | Some y \<Rightarrow> Numbers x y))
            else Values (SStr (column_text aColumn)) (SStr (column_text bColumn))))"

text \<open>\<open>null\<close> is replaced by the empty string when ascending and by \<open>zzz\<close> when descending.\<close>

definition null_default :: "direction \<Rightarrow> sortval \<Rightarrow> sortval" where
  "null_default dir v = (if v = SNull then SStr (if dir = asc then [] else ''zzz'') else v)"

fun to_String :: "sortval \<Rightarrow> string" where
  "to_String SNull = ''null''"
| "to_String (SStr s) = s"
| "to_String (SDate d) = Date_toString d"

text \<open>
  The comparison of two values after the replacement of \<open>null\<close>: two dates by their time
  values, everything else by \<open>localeCompare\<close> of the lower-cased strings. The result is the
  sign of the number the comparator returns (NaN counts as zero, as the sort reads it).
\<close>

fun compare_values :: "host \<Rightarrow> direction \<Rightarrow> sortval \<Rightarrow> sortval \<Rightarrow> int" where
  "compare_values h dir (SDate x) (SDate y) = (if dir = asc then sgn (x - y) else sgn (y - x))"
| "compare_values h dir aValue bValue =
     (let aStr = toLowerCase (to_String aValue);
          bStr = toLowerCase (to_String bValue)
      in if dir = asc then sgn (localeCompare h aStr bStr) else sgn (localeCompare h bStr aStr))"

text \<open>The comparator of \<open>sortTasks\<close>. A negative result places \<open>a\<close> before \<open>b\<close>.\<close>

definition sortTasks_compare :: "host \<Rightarrow> string \<Rightarrow> direction \<Rightarrow> task \<Rightarrow> task \<Rightarrow> int" where
  "sortTasks_compare h sortBy dir a b =
     (case sort_values h sortBy a b of
        Numbers x y \<Rightarrow> if dir = asc then minus_sign x y else minus_sign y x
      | Values aValue bValue \<Rightarrow>
          compare_values h dir (null_default dir aValue) (null_default dir bValue))"

section \<open>The chart (GanttChart.tsx)\<close>

definition validTasks :: "task list \<Rightarrow> task list" where
  "validTasks tasks = filter (\<lambda>task. startDate task \<noteq> None \<and> endDate task \<noteq> None) tasks"

text \<open>The \<open>reduce\<close> that collects the dates of the valid tasks.\<close>

definition push_dates :: "task \<Rightarrow> jsdate list \<Rightarrow> jsdate list" where
  "push_dates task acc =
     acc @ (case startDate task of None \<Rightarrow> [] | Some s \<Rightarrow> [s])
         @ (case endDate task of None \<Rightarrow> [] | Some e \<Rightarrow> [e])"

definition task_dates :: "task list \<Rightarrow> jsdate list" where
  "task_dates ts = fold push_dates ts []"

text \<open>
  \<open>Math.min(...ts)\<close> and \<open>Math.max(...ts)\<close> of time values; \<open>None\<close> for no argument (an
  infinity in the source, not reached: the list of dates of valid tasks is not empty).
\<close>

fun Math_min_of :: "int list \<Rightarrow> int option" where
  "Math_min_of [] = None"
| "Math_min_of (x # xs) = Some (fold min xs x)"

fun Math_max_of :: "int list \<Rightarrow> int option" where
  "Math_max_of [] = None"
| "Math_max_of (x # xs) = Some (fold max xs x)"

record date_range =
  range_start :: jsdate
  range_end :: jsdate

record layout =
  lo_validTasks :: "task list"
  lo_dateRange :: "date_range option"
  lo_dayWidth :: real

text \<open>
  The first \<open>useMemo\<close> of the chart; \<open>innerWidth\<close> is \<open>window.innerWidth\<close>. The division is by
  a number of days that is at least 14.
\<close>

definition chart_layout :: "task list \<Rightarrow> real \<Rightarrow> layout" where
  "chart_layout tasks innerWidth =
     (let vts = validTasks tasks
      in if length vts = 0 then \<lparr>lo_validTasks = [], lo_dateRange = None, lo_dayWidth = 30\<rparr>
         else
           (let dates = task_dates vts
            in case (Math_min_of dates, Math_max_of dates) of
                 (Some minDate, Some maxDate) \<Rightarrow>
                   (let paddedMinDate = moment_add_days minDate (- 7);
                        paddedMaxDate = moment_add_days maxDate 7;
                        totalDays = moment_diff_days paddedMaxDate paddedMinDate;
                        availableWidth = max 800 (innerWidth - 350);
                        dayWidth = max 20 (availableWidth / real_of_int totalDays)
                    in \<lparr>lo_validTasks = vts,
                        lo_dateRange = Some \<lparr>range_start = paddedMinDate,
                                              range_end = paddedMaxDate\<rparr>,
                        lo_dayWidth = dayWidth\<rparr>)
               | _ \<Rightarrow> \<lparr>lo_validTasks = vts, lo_dateRange = None, lo_dayWidth = 30\<rparr>))"

text \<open>
  The second \<open>useMemo\<close>: the object \<open>groups\<close> is the list of its own properties, in the
  order they were created. (The host enumerates keys that look like numbers first; each bucket
  is computed on its own, so its content does not depend on the order of the buckets.)

  \<open>groups\<close> is a plain object, so reading \<open>groups[groupKey]\<close> also finds the properties it
  inherits from \<open>Object.prototype\<close>, all of them truthy: for such a key no bucket is created,
  and \<open>groups[groupKey].push(task)\<close> throws a TypeError (\<open>None\<close>).
\<close>

type_synonym groups = "(string \<times> task list) list"

definition Object_prototype_names :: "string list" where
  "Object_prototype_names =
     [''constructor'', ''__defineGetter__'', ''__defineSetter__'', ''hasOwnProperty'',
      ''__lookupGetter__'', ''__lookupSetter__'', ''isPrototypeOf'', ''propertyIsEnumerable'',
      ''toString'', ''valueOf'', ''__proto__'', ''toLocaleString'']"

definition group_step ::
  "task \<Rightarrow> groups \<times> task list \<Rightarrow> (groups \<times> task list) option" where
  "group_step task acc =
     (let groups = fst acc;
          orphans = snd acc;
          groupKey = or_else (task_group task) ''No Group'';
          inherited = (groupKey \<in> set Object_prototype_names);
          groups1 = (if map_of groups groupKey = None \<and> \<not> inherited
                     then groups @ [(groupKey, [])] else groups)
      in if parentId task \<noteq> None \<and> parentId task \<noteq> Some []
         then Some (groups1, orphans @ [task])
         else if inherited then None
         else Some (map (\<lambda>(k, ts). if k = groupKey then (k, ts @ [task]) else (k, ts)) groups1,
                    orphans))"

text \<open>The loop over the valid tasks; it stops at the first exception.\<close>

fun group_loop :: "task list \<Rightarrow> groups \<times> task list \<Rightarrow> (groups \<times> task list) option" where
  "group_loop [] acc = Some acc"
| "group_loop (task # tasks) acc =
     (case group_step task acc of None \<Rightarrow> None | Some acc' \<Rightarrow> group_loop tasks acc')"

fun findIndex :: "('a \<Rightarrow> bool) \<Rightarrow> 'a list \<Rightarrow> nat option" where
  "findIndex P [] = None"
| "findIndex P (x # xs) = (if P x then Some 0 else map_option Suc (findIndex P xs))"

text \<open>\<open>groupTasks.splice(parentIndex + 1, 0, subtask)\<close> when the parent is found.\<close>

definition place_subtask :: "task \<Rightarrow> task list \<Rightarrow> task list" where
  "place_subtask subtask groupTasks =
     (case findIndex (\<lambda>task. Some (task_id task) = parentId subtask) groupTasks of
        None \<Rightarrow> groupTasks
      | Some parentIndex \<Rightarrow>
          take (parentIndex + 1) groupTasks @ [subtask] @ drop (parentIndex + 1) groupTasks)"

definition groupedTasks :: "task list \<Rightarrow> groups option" where
  "groupedTasks vts =
     (case group_loop vts ([], []) of
        None \<Rightarrow> None
      | Some acc \<Rightarrow>
          Some (fold (\<lambda>subtask groups. map (\<lambda>(k, ts). (k, place_subtask subtask ts)) groups)
                     (snd acc) (fst acc)))"

section \<open>The bar (GanttBar.tsx)\<close>

record bar =
  leftOffset :: real
  width :: real

text \<open>The position and size of the bar; \<open>None\<close> when the component renders nothing.\<close>

definition GanttBar :: "task \<Rightarrow> jsdate \<Rightarrow> real \<Rightarrow> bar option" where
  "GanttBar task ganttStart dayWidth =
     (case (startDate task, endDate task) of
        (Some taskStart, Some taskEnd) \<Rightarrow>
          (let duration = moment_diff_days taskEnd taskStart + 1
           in Some \<lparr>leftOffset = real_of_int (moment_diff_days taskStart ganttStart) * dayWidth,
                     width = max (dayWidth * real_of_int duration) (dayWidth * 0.5)\<rparr>)
      | _ \<Rightarrow> None)"

text \<open>
  The rows the chart renders: group name, task and bar; \<open>None\<close> when the grouping throws and
  the chart renders nothing.
\<close>

definition rendered_rows ::
  "task list \<Rightarrow> real \<Rightarrow> (string \<times> task \<times> bar option) list option" where
  "rendered_rows tasks innerWidth =
     (let lo = chart_layout tasks innerWidth
      in case groupedTasks (lo_validTasks lo) of
           None \<Rightarrow> None
         | Some grouped \<Rightarrow>
             Some (if length (lo_validTasks lo) = 0 then []
                   else concat (map (\<lambda>(groupName, groupTasks).
                           map (\<lambda>task. (groupName, task,
                                  (case lo_dateRange lo of
                                     None \<Rightarrow> None
                                   | Some r \<Rightarrow> GanttBar task (range_start r) (lo_dayWidth lo))))
                               groupTasks)
                         grouped)))"

subsection \<open>Dragging\<close>

datatype drag_type = move | resize_left | resize_right

record drag_start =
  ds_x :: real
  ds_startDate :: jsdate
  ds_endDate :: jsdate

text \<open>
  \<open>handleMouseDown\<close> stores the anchor in \<open>dragStartRef\<close>; the handler exists only on a
  rendered bar, whose task has both dates.
\<close>

definition handleMouseDown :: "task \<Rightarrow> real \<Rightarrow> drag_start option" where
  "handleMouseDown task clientX =
     (case (startDate task, endDate task) of
        (Some s, Some e) \<Rightarrow> Some \<lparr>ds_x = clientX, ds_startDate = s, ds_endDate = e\<rparr>
      | _ \<Rightarrow> None)"

text \<open>
  \<open>handleMouseMove\<close>: the arguments of the call of \<open>onUpdate\<close>, or \<open>None\<close> when nothing is
  emitted. \<open>Math.round(x)\<close> is \<open>\<lfloor>x + 1/2\<rfloor>\<close>. The day width is not zero. The days are added
  in the zone of the host.
\<close>

definition handleMouseMove ::
  "host \<Rightarrow> task \<Rightarrow> drag_type \<Rightarrow> real \<Rightarrow> bool \<Rightarrow> drag_start option \<Rightarrow> real
     \<Rightarrow> (string \<times> jsdate \<times> jsdate) option" where
  "handleMouseMove h task type dayWidth hasOnUpdate dragStartRef clientX =
     (case dragStartRef of
        None \<Rightarrow> None
      | Some anchor \<Rightarrow>
          if \<not> hasOnUpdate then None
          else
            (let deltaX = clientX - ds_x anchor;
                 deltaDays = \<lfloor>deltaX / dayWidth + 1 / 2\<rfloor>;
                 newStartDate = ds_startDate anchor;
                 newEndDate = ds_endDate anchor
             in case type of
                  move \<Rightarrow>
                    Some (task_id task,
                          moment_add h (ds_startDate anchor) deltaDays,
                          moment_add h (ds_endDate anchor) deltaDays)
                | resize_left \<Rightarrow>
                    (let shifted = moment_add h (ds_startDate anchor) deltaDays
                     in Some (task_id task,
                              (if newEndDate < shifted then newEndDate else shifted),
                              newEndDate))
                | resize_right \<Rightarrow>
                    (let shifted = moment_add h (ds_endDate anchor) deltaDays
                     in Some (task_id task,
                              newStartDate,
                              (if shifted < newStartDate then newStartDate else shifted)))))"

definition handleMouseUp :: "drag_start option \<Rightarrow> drag_start option" where
  "handleMouseUp dragStartRef = None"

section \<open>Example data\<close>

text \<open>
  A host for the examples: it agrees with the built-in functions on the payloads the examples
  use, and its results elsewhere are placeholders. \<open>JSON.parse\<close> throws on text that is
  not JSON; \<open>Number({})\<close> is NaN, as \<open>Math.min\<close> and \<open>Math.max\<close> convert their arguments.
  Its collation is the order of the character codes and its zone is UTC.
\<close>

definition example_parse :: "string \<Rightarrow> jsval option" where
  \<open>example_parse =
     map_of
       [(''{"from":"2024-01-10","to":"2024-01-15"}'',
           JObj [(''from'', JStr ''2024-01-10''), (''to'', JStr ''2024-01-15'')]),
        (''{"from":"2024-01-10"}'', JObj [(''from'', JStr ''2024-01-10'')]),
        (''{}'', JObj []),
        (''150'', JNum (Fin 150)),
        (''-5'', JNum (Fin (- 5))),
        (''0'', JNum (Fin 0))]\<close>

definition example_ToNumber :: "jsval \<Rightarrow> jsnum option" where
  "example_ToNumber v =
     (case v of
        JNum n \<Rightarrow> Some n
      | JNull \<Rightarrow> Some (Fin 0)
      | JBool b \<Rightarrow> Some (Fin (if b then 1 else 0))
      | _ \<Rightarrow> Some NaN)"

definition example_new_Date :: "jsval \<Rightarrow> jsdate option" where
  "example_new_Date =
     map_of
       [(JStr ''2024-01-10'', Date_UTC 2024 1 10),
        (JStr ''2024-01-15'', Date_UTC 2024 1 15)]"

definition example_parseFloat :: "jsval \<Rightarrow> jsnum option" where
  "example_parseFloat v = (case v of JNum n \<Rightarrow> Some n | _ \<Rightarrow> Some NaN)"

definition example_host :: host where
  "example_host =
     \<lparr>JSON_parse = example_parse, ToNumber = example_ToNumber,
      new_Date = example_new_Date, parseFloat = example_parseFloat,
      localeCompare = compare_codes, LocalTime = (\<lambda>t. t), UTC = (\<lambda>t. t)\<rparr>"

text \<open>
  A host in the zone of New York around 2024-03-10, the day daylight saving time starts there
  at 07:00 UTC: the local time is five hours behind UTC before and four hours after. The
  local times of the skipped hour are read with the offset before the change.
\<close>

definition new_york_LocalTime :: "int \<Rightarrow> int" where
  "new_york_LocalTime t = (if t < 1710054000000 then t - 18000000 else t - 14400000)"

definition new_york_UTC :: "int \<Rightarrow> int" where
  "new_york_UTC t = (if t < 1710039600000 then t + 18000000 else t + 14400000)"

definition new_york_host :: host where
  "new_york_host =
     example_host \<lparr>LocalTime := new_york_LocalTime, UTC := new_york_UTC\<rparr>"

definition example_board :: board where
  "example_board = \<lparr>board_id = ''b1'', board_name = ''Board'', board_kind = ''public''\<rparr>"

definition example_settings :: settings where
  "example_settings =
     \<lparr>colorByColumn = None, groupByColumn = None, sortByColumn = None, sortDirection = None,
      showSubitems = False, timelineColumn = None\<rparr>"

text \<open>An item with no column, and an item whose timeline has a start and no end.\<close>

definition item_no_dates :: item where
  "item_no_dates = Item ''1'' ''Plan'' [] None []"

definition item_open_end :: item where
  \<open>item_open_end =
     Item ''2'' ''Build''
       [\<lparr>cv_id = ''timeline'', cv_title = ''Timeline'', cv_type = ''timeline'',
         cv_value = Some ''{"from":"2024-01-10"}'', cv_text = ''2024-01-10''\<rparr>]
       None []\<close>

text \<open>
  Items with a numeric column titled \<open>Progress\<close>: the payloads \<open>150\<close>, \<open>-5\<close>, the object
  \<open>{}\<close> and text that is not JSON.
\<close>

definition item_progress :: "string \<Rightarrow> item" where
  "item_progress payload =
     Item ''3'' ''Test''
       [\<lparr>cv_id = ''numbers'', cv_title = ''Progress'', cv_type = ''numeric'',
         cv_value = Some payload, cv_text = payload\<rparr>]
       None []"

text \<open>
  An item with a mirror column whose payload is not JSON, and the mapping of that column on
  board \<open>b1\<close>.
\<close>

definition item_mirror :: item where
  "item_mirror =
     Item ''4'' ''Ship''
       [\<lparr>cv_id = ''mirror1'', cv_title = ''Owner'', cv_type = ''mirror'',
         cv_value = Some ''not json'', cv_text = ''Shown''\<rparr>]
       None []"

definition example_mapping :: mirror_mapping where
  "example_mapping =
     \<lparr>sourceColumnId = ''person'', sourceColumnTitle = ''Person'', sourceBoardId = ''b2'',
      sourceBoardName = ''People'', mirrorColumnId = ''mirror1'', mirrorColumnTitle = ''Owner'',
      targetBoardId = ''b1''\<rparr>"

definition example_mappings :: "string \<rightharpoonup> mirror_mapping list" where
  "example_mappings = [''b1'' \<mapsto> [example_mapping]]"

section \<open>Notions used in the statements\<close>

text \<open>
  The entry that \<open>extractMirrorData\<close> writes for a column \<open>c\<close> with payload \<open>v\<close>: the display
  text of the column, its type, and as raw value the decoded payload or, when decoding fails,
  the payload itself.
\<close>

definition entry_of_column :: "host \<Rightarrow> column_value \<Rightarrow> string \<Rightarrow> mirror_entry \<Rightarrow> bool" where
  "entry_of_column h c v e \<longleftrightarrow>
     md_displayValue e = cv_text c \<and> md_type e = cv_type c \<and>
     md_rawValue e = (case JSON_parse h v of Some parsedValue \<Rightarrow> parsedValue | None \<Rightarrow> JStr v)"



text \<open>
  The tests of the grouping loop by name: a task is a subtask when its \<open>parentId\<close> is truthy,
  and its group key is its group or \<open>No Group\<close>.
\<close>

definition is_subtask :: "task \<Rightarrow> bool" where
  "is_subtask t \<longleftrightarrow> parentId t \<noteq> None \<and> parentId t \<noteq> Some []"

definition group_key :: "task \<Rightarrow> string" where
  "group_key t = or_else (task_group t) ''No Group''"

text \<open>
  Inserting \<open>c\<close> after the first element that satisfies \<open>P\<close>, by recursion on the list; this
  is what \<open>findIndex\<close> followed by \<open>splice\<close> computes.
\<close>

fun insert_after :: "('a \<Rightarrow> bool) \<Rightarrow> 'a \<Rightarrow> 'a list \<Rightarrow> 'a list" where
  "insert_after P c [] = []"
| "insert_after P c (x # xs) = (if P x then x # c # xs else x # insert_after P c xs)"

section \<open>Example tasks\<close>

text \<open>
  Tasks for the comparator: one with an end and no start, one from the first to the third of
  March 2024, one whose item has a status column, and one whose item has no column.
\<close>

definition plain_task :: "string \<Rightarrow> string \<Rightarrow> jsdate option \<Rightarrow> jsdate option \<Rightarrow> item \<Rightarrow> task" where
  "plain_task i n s e it =
     \<lparr>task_id = i, task_name = n, startDate = s, endDate = e, progress = Fin 0,
      color = default_color, task_group = ''No Group'', boardId = ''b1'', boardName = ''Board'',
      parentId = None, originalItem = it, mirrorData = []\<rparr>"

definition task_open_start :: task where
  "task_open_start =
     plain_task ''5'' ''Review'' None (Some (Date_UTC 2024 3 3)) (Item ''5'' ''Review'' [] None [])"

definition task_march :: task where
  "task_march =
     plain_task ''6'' ''Launch'' (Some (Date_UTC 2024 3 1)) (Some (Date_UTC 2024 3 3))
       (Item ''6'' ''Launch''
          [\<lparr>cv_id = ''status'', cv_title = ''Status'', cv_type = ''status'',
            cv_value = None, cv_text = ''Done''\<rparr>] None [])"

definition task_april :: task where
  "task_april =
     plain_task ''7'' ''Audit'' (Some (Date_UTC 2024 4 1)) (Some (Date_UTC 2024 4 2))
       (Item ''7'' ''Audit'' [] None [])"


definition task_january_open_end :: task where
  "task_january_open_end =
     plain_task ''9'' ''Kickoff'' (Some (Date_UTC 2024 1 1)) None
       (Item ''9'' ''Kickoff'' [] None [])"

text \<open>
  A task whose item has a numeric column with the value -5, and a task from the eighth to
  the twelfth of March 2024.
\<close>

definition task_cost :: task where
  "task_cost =
     plain_task ''13'' ''Refund'' (Some (Date_UTC 2024 3 4)) (Some (Date_UTC 2024 3 5))
       (Item ''13'' ''Refund''
          [\<lparr>cv_id = ''cost'', cv_title = ''Cost'', cv_type = ''numeric'',
            cv_value = Some ''-5'', cv_text = ''-5''\<rparr>] None [])"

definition task_spring :: task where
  "task_spring =
     plain_task ''14'' ''Survey'' (Some (Date_UTC 2024 3 8)) (Some (Date_UTC 2024 3 12))
       (Item ''14'' ''Survey'' [] None [])"

text \<open>A parent with two subtasks, in this order in the list of tasks.\<close>

definition task_parent :: task where
  "task_parent =
     plain_task ''10'' ''Release'' (Some (Date_UTC 2024 3 1)) (Some (Date_UTC 2024 3 3))
       (Item ''10'' ''Release'' [] None [])"

definition task_child1 :: task where
  "task_child1 =
     (plain_task ''11'' ''Write notes'' (Some (Date_UTC 2024 3 1)) (Some (Date_UTC 2024 3 2))
        (Item ''11'' ''Write notes'' [] None [])) \<lparr>parentId := Some ''10''\<rparr>"

definition task_child2 :: task where
  "task_child2 =
     (plain_task ''12'' ''Publish'' (Some (Date_UTC 2024 3 2)) (Some (Date_UTC 2024 3 3))
        (Item ''12'' ''Publish'' [] None [])) \<lparr>parentId := Some ''10''\<rparr>"

section \<open>Theorems\<close>

subsection \<open>The task of an item\<close>

lemma timeline_no_dates:
  "extractTimelineData example_host item_no_dates None = \<lparr>tl_from = None, tl_to = None\<rparr>"
  by (simp add: extractTimelineData_def item_no_dates_def no_timeline_def)

lemma timeline_open_end:
  "extractTimelineData example_host item_open_end None
     = \<lparr>tl_from = Some (Date_UTC 2024 1 10), tl_to = None\<rparr>"
  by (simp add: extractTimelineData_def item_open_end_def no_timeline_def example_host_def
      example_parse_def date_of_prop_def example_new_Date_def)

text \<open>
  Claim C1. For every item: when the extracted timeline has neither a start nor an end,
  \<open>convertItemToGanttTask\<close> returns no task; when the start or the end is present, it returns
  a task whose \<open>startDate\<close> and \<open>endDate\<close> are the extracted start and end, an absent side
  staying absent.
\<close>

theorem convertItemToGanttTask_dates:
  "(tl_from (extractTimelineData h item (timelineColumn st)) = None \<and>
    tl_to (extractTimelineData h item (timelineColumn st)) = None \<longrightarrow>
      convertItemToGanttTask h mm item b st pid = None) \<and>
   (tl_from (extractTimelineData h item (timelineColumn st)) \<noteq> None \<or>
    tl_to (extractTimelineData h item (timelineColumn st)) \<noteq> None \<longrightarrow>
      (\<exists>t. convertItemToGanttTask h mm item b st pid = Some t \<and>
           startDate t = tl_from (extractTimelineData h item (timelineColumn st)) \<and>
           endDate t = tl_to (extractTimelineData h item (timelineColumn st))))"
  by (simp add: convertItemToGanttTask_def Let_def)

theorem convertItemToGanttTask_dates_witness:
  "extractTimelineData example_host item_no_dates (timelineColumn example_settings)
     = \<lparr>tl_from = None, tl_to = None\<rparr> \<and>
   convertItemToGanttTask example_host Map.empty item_no_dates example_board example_settings None
     = None \<and>
   extractTimelineData example_host item_open_end (timelineColumn example_settings)
     = \<lparr>tl_from = Some (Date_UTC 2024 1 10), tl_to = None\<rparr> \<and>
   map_option startDate
     (convertItemToGanttTask example_host Map.empty item_open_end example_board example_settings
        None) = Some (Some (Date_UTC 2024 1 10)) \<and>
   map_option endDate
     (convertItemToGanttTask example_host Map.empty item_open_end example_board example_settings
        None) = Some None"
  using convertItemToGanttTask_dates [of example_host item_no_dates example_settings
          Map.empty example_board None]
        convertItemToGanttTask_dates [of example_host item_open_end example_settings
          Map.empty example_board None]
  by (auto simp add: timeline_no_dates timeline_open_end example_settings_def)

subsection \<open>Progress\<close>

lemma find_progress_column:
  "find (\<lambda>cv. cv_type cv = ''numeric'' \<and>
                   (str_includes (toLowerCase (cv_title cv)) ''progress'' \<or>
                    str_includes (toLowerCase (cv_title cv)) ''complete'' \<or>
                    str_includes (toLowerCase (cv_title cv)) ''%''))
             (column_values (item_progress p)) = Some (hd (column_values (item_progress p)))"
  by (simp add: item_progress_def toLowerCase_def lower_char_def)

text \<open>
  A payload that decodes to a number is clamped, and a payload that is not JSON gives 0.
\<close>

lemma extractProgress_examples:
  "extractProgress example_host (item_progress ''150'') = Fin 100"
  "extractProgress example_host (item_progress ''-5'') = Fin 0"
  "extractProgress example_host (item_progress ''not json'') = Fin 0"
  by (simp_all add: extractProgress_def find_progress_column)
     (simp_all add: item_progress_def example_host_def example_parse_def example_ToNumber_def
        Math_min_def Math_max_def)

text \<open>The result is in the range from 0 to 100 whenever it is not NaN.\<close>

lemma extractProgress_range:
  "extractProgress h item = NaN \<or>
   (js_le (Fin 0) (extractProgress h item) \<and> js_le (extractProgress h item) (Fin 100))"
proof -
  have clamp: "Math_max (Fin 0) (Math_min (Fin 100) n) = NaN \<or>
     (js_le (Fin 0) (Math_max (Fin 0) (Math_min (Fin 100) n)) \<and>
      js_le (Math_max (Fin 0) (Math_min (Fin 100) n)) (Fin 100))" for n
    by (cases n) (auto simp add: Math_min_def Math_max_def)
  show ?thesis
    using clamp
    by (auto simp add: extractProgress_def split: option.splits)
qed

text \<open>
  Claim C5 says that the result of \<open>extractProgress\<close> is always between 0 and 100 and is 0 for
  a malformed payload. On a numeric column titled \<open>Progress\<close> whose payload is the JSON object
  \<open>{}\<close> the function returns NaN: \<open>JSON.parse\<close> succeeds, the object is truthy, and
  \<open>Math.min(100, {})\<close> is NaN, which \<open>Math.max(0, NaN)\<close> keeps.
\<close>

theorem extractProgress_object_payload:
  "extractProgress example_host (item_progress ''{}'') = NaN"
  by (simp add: extractProgress_def find_progress_column)
     (simp add: item_progress_def example_host_def example_parse_def example_ToNumber_def
        Math_min_def Math_max_def)

subsection \<open>Mirror data\<close>

lemma mirror_step_keeps:
  assumes "find (\<lambda>cv. cv_id cv = k) (column_values item) = Some c"
    and "cv_value c = Some v" and "v \<noteq> []"
    and "\<exists>e. map_of md k = Some e \<and> entry_of_column h c v e"
  shows "\<exists>e. map_of (mirror_step h item m md) k = Some e \<and> entry_of_column h c v e"
proof (cases "mirrorColumnId m = k")
  case True
  with assms show ?thesis
    by (simp add: mirror_step_def update_conv' entry_of_column_def)
next
  case False
  with assms(4) show ?thesis
    by (simp add: mirror_step_def update_conv' split: option.splits)
qed

lemma mirror_step_writes:
  assumes "find (\<lambda>cv. cv_id cv = mirrorColumnId m) (column_values item) = Some c"
    and "cv_value c = Some v" and "v \<noteq> []"
  shows "\<exists>e. map_of (mirror_step h item m md) (mirrorColumnId m) = Some e \<and>
             entry_of_column h c v e"
  using assms by (simp add: mirror_step_def update_conv' entry_of_column_def)

lemma mirror_fold_keeps:
  assumes "find (\<lambda>cv. cv_id cv = k) (column_values item) = Some c"
    and "cv_value c = Some v" and "v \<noteq> []"
  shows "\<exists>e. map_of md k = Some e \<and> entry_of_column h c v e \<Longrightarrow>
         \<exists>e. map_of (fold (mirror_step h item) ms md) k = Some e \<and> entry_of_column h c v e"
proof (induction ms arbitrary: md)
  case Nil
  then show ?case by simp
next
  case (Cons m ms)
  show ?case
    using Cons.IH [OF mirror_step_keeps [OF assms Cons.prems]] by simp
qed

lemma mirror_fold_writes:
  assumes "find (\<lambda>cv. cv_id cv = mirrorColumnId m) (column_values item) = Some c"
    and "cv_value c = Some v" and "v \<noteq> []"
  shows "m \<in> set ms \<Longrightarrow>
         \<exists>e. map_of (fold (mirror_step h item) ms md) (mirrorColumnId m) = Some e \<and>
             entry_of_column h c v e"
proof (induction ms arbitrary: md)
  case Nil
  then show ?case by simp
next
  case (Cons m' ms)
  show ?case
  proof (cases "m' = m")
    case True
    have "\<exists>e. map_of (mirror_step h item m md) (mirrorColumnId m) = Some e \<and>
              entry_of_column h c v e"
      by (rule mirror_step_writes [OF assms])
    from mirror_fold_keeps [OF assms this] True show ?thesis by simp
  next
    case False
    with Cons.prems have "m \<in> set ms" by simp
    from Cons.IH [OF this] show ?thesis by simp
  qed
qed

lemma mirror_example:
  "extractMirrorData example_host example_mappings item_mirror ''b1'' =
     [(''mirror1'', \<lparr>md_displayValue = ''Shown'', md_rawValue = JStr ''not json'',
         md_sourceColumnTitle = ''Person'', md_sourceBoardName = ''People'',
         md_type = ''mirror''\<rparr>)]"
  by (simp add: extractMirrorData_def example_mappings_def mirror_step_def example_mapping_def
      item_mirror_def example_host_def example_parse_def)

text \<open>
  Claim C9 says that when the payload of a mirror column does not decode, the raw value and
  the display value of the entry are both the display text of the column. It fails: for a
  column with payload \<open>not json\<close> and display text \<open>Shown\<close>, the raw value of the entry is the
  payload \<open>not json\<close>.
\<close>

theorem extractMirrorData_raw_is_display_counterexample:
  "JSON_parse example_host ''not json'' = None \<and>
   map_option md_displayValue
     (map_of (extractMirrorData example_host example_mappings item_mirror ''b1'') ''mirror1'')
     = Some ''Shown'' \<and>
   map_option md_rawValue
     (map_of (extractMirrorData example_host example_mappings item_mirror ''b1'') ''mirror1'')
     = Some (JStr ''not json'') \<and>
   JStr ''not json'' \<noteq> JStr ''Shown''"
  by (simp add: mirror_example) (simp add: example_host_def example_parse_def)

text \<open>
  Claim C9, amended. For every item and every mapping of the board whose mirror column has a
  non-empty payload on the item, \<open>extractMirrorData\<close> holds an entry under the id of that
  column (the entry is never dropped); its display value is the display text of the column,
  and its raw value is the decoded payload or, when decoding fails, the undecoded payload.
\<close>

theorem extractMirrorData_entry:
  assumes "mm bid = Some ms" and "m \<in> set ms"
    and "find (\<lambda>cv. cv_id cv = mirrorColumnId m) (column_values item) = Some c"
    and "cv_value c = Some v" and "v \<noteq> []"
  shows "\<exists>e. map_of (extractMirrorData h mm item bid) (mirrorColumnId m) = Some e \<and>
             md_displayValue e = cv_text c \<and>
             md_rawValue e =
               (case JSON_parse h v of Some parsedValue \<Rightarrow> parsedValue | None \<Rightarrow> JStr v)"
  using mirror_fold_writes [OF assms(3-5) assms(2), where h = h and md = "[]"] assms(1)
  by (auto simp add: extractMirrorData_def entry_of_column_def)

theorem extractMirrorData_entry_witness:
  "example_mappings ''b1'' = Some [example_mapping] \<and>
   example_mapping \<in> set [example_mapping] \<and>
   find (\<lambda>cv. cv_id cv = mirrorColumnId example_mapping) (column_values item_mirror)
     = Some (hd (column_values item_mirror)) \<and>
   cv_value (hd (column_values item_mirror)) = Some ''not json'' \<and>
   ''not json'' \<noteq> [] \<and>
   (\<exists>e. map_of (extractMirrorData example_host example_mappings item_mirror ''b1'')
           (mirrorColumnId example_mapping) = Some e \<and>
        md_displayValue e = ''Shown'' \<and> md_rawValue e = JStr ''not json'')"
proof -
  have 1: "example_mappings ''b1'' = Some [example_mapping]"
    by (simp add: example_mappings_def)
  have 2: "example_mapping \<in> set [example_mapping]" by simp
  have 3: "find (\<lambda>cv. cv_id cv = mirrorColumnId example_mapping) (column_values item_mirror)
     = Some (hd (column_values item_mirror))"
    by (simp add: item_mirror_def example_mapping_def)
  have 4: "cv_value (hd (column_values item_mirror)) = Some ''not json''"
    by (simp add: item_mirror_def)
  have 5: "''not json'' \<noteq> []" by simp
  have 6: "JSON_parse example_host ''not json'' = None"
    by (simp add: example_host_def example_parse_def)
  have 7: "cv_text (hd (column_values item_mirror)) = ''Shown''"
    by (simp add: item_mirror_def)
  from extractMirrorData_entry [where mm = example_mappings and h = example_host, OF 1 2 3 4 5]
    1 2 3 4 5 6 7
  show ?thesis by simp
qed

subsection \<open>The comparator\<close>

lemma compare_codes_swap: "compare_codes t s = - compare_codes s t"
  by (induction s t rule: compare_codes.induct) auto


lemma minus_sign_swap: "minus_sign y x = - minus_sign x y"
  by (cases x; cases y) auto





text \<open>The collation of the examples satisfies what the theorems ask of a collation.\<close>

lemma compare_codes_antisymmetric:
  "\<forall>s t. sgn (localeCompare example_host t s) = - sgn (localeCompare example_host s t)"
proof (intro allI)
  fix s t
  show "sgn (localeCompare example_host t s) = - sgn (localeCompare example_host s t)"
    using compare_codes_swap [of t s] by (simp add: example_host_def sgn_if)
qed


lemma compare_values_present:
  assumes "\<forall>s t. sgn (localeCompare h t s) = - sgn (localeCompare h s t)"
  shows "compare_values h desc v w = - compare_values h asc v w"
proof (cases "\<exists>x y. v = SDate x \<and> w = SDate y")
  case True
  then obtain x y where "v = SDate x" "w = SDate y" by blast
  then show ?thesis by (simp add: sgn_if)
next
  case False
  then have "compare_values h dir v w =
      (if dir = asc
       then sgn (localeCompare h (toLowerCase (to_String v)) (toLowerCase (to_String w)))
       else sgn (localeCompare h (toLowerCase (to_String w)) (toLowerCase (to_String v))))"
    for dir
    by (cases v; cases w) (simp_all add: Let_def)
  then show ?thesis
    using assms [rule_format, of "toLowerCase (to_String w)" "toLowerCase (to_String v)"]
    by simp
qed

lemma compare_values_swap:
  assumes "\<forall>s t. sgn (localeCompare h t s) = - sgn (localeCompare h s t)"
    and "(v = SNull) = (w = SNull)"
  shows "compare_values h desc (null_default desc v) (null_default desc w)
       = - compare_values h asc (null_default asc v) (null_default asc w)"
proof (cases "v = SNull")
  case True
  have "sgn (localeCompare h s s) = 0" for s
    using assms(1) [rule_format, of s s] by simp
  with True assms(2) show ?thesis by (simp add: null_default_def)
next
  case False
  with assms(2) have "null_default dir v = v" "null_default dir w = w" for dir
    by (simp_all add: null_default_def)
  then show ?thesis by (simp add: compare_values_present [OF assms(1)])
qed


lemma march_string:
  "toLowerCase (Date_toString (Date_UTC 2024 3 1))
     = ''fri mar 01 2024 00:00:00 gmt+0000 (coordinated universal time)''"
  by code_simp

lemma compare_open_start_march:
  "sortTasks_compare example_host ''start_date'' asc task_open_start task_march = - 1"
  "sortTasks_compare example_host ''start_date'' desc task_open_start task_march = - 1"
  "sortTasks_compare example_host ''start_date'' asc task_march task_open_start = 1"
  "sortTasks_compare example_host ''start_date'' desc task_march task_open_start = 1"
  by (simp_all add: sortTasks_compare_def sort_values_def task_open_start_def task_march_def
      plain_task_def date_value_def null_default_def march_string example_host_def)
     (simp_all add: toLowerCase_def lower_char_def)

text \<open>
  Claim C2 says that whenever the ascending comparison places \<open>a\<close> strictly before \<open>b\<close>, the
  descending comparison places \<open>b\<close> strictly before \<open>a\<close>, also when one key value is \<open>null\<close>.
  It fails for the key \<open>start_date\<close> on a task without a start date and a task that starts
  on 2024-03-01, a Friday: ascending, the empty string is compared with the string of the
  date, and descending, the string of the date is compared with \<open>zzz\<close>, so the task without
  a start date is placed first in both directions, in either order of the arguments.
\<close>

theorem sortTasks_compare_null_date_counterexample:
  "sortTasks_compare example_host ''start_date'' asc task_open_start task_march < 0 \<and>
   \<not> 0 < sortTasks_compare example_host ''start_date'' desc task_open_start task_march \<and>
   sortTasks_compare example_host ''start_date'' desc task_open_start task_march = - 1 \<and>
   sortTasks_compare example_host ''start_date'' asc task_march task_open_start = 1 \<and>
   sortTasks_compare example_host ''start_date'' desc task_march task_open_start = 1"
  by (simp add: compare_open_start_march)

text \<open>
  Claim C2, amended. Let the collation of the host be antisymmetric: exchanging the two
  strings negates the sign of the result. Then for every pair of tasks and every sort key
  such that, when the key is \<open>start_date\<close> or \<open>end_date\<close>, that date is set on both tasks or
  on neither: the descending comparison is the negation of the ascending one, so a pair
  placed strictly in one order when ascending is placed strictly in the other order when
  descending.
\<close>

theorem sortTasks_compare_desc_reverses:
  "(\<forall>s t. sgn (localeCompare h t s) = - sgn (localeCompare h s t)) \<and>
   (sortBy = ''start_date'' \<longrightarrow> (startDate a = None) = (startDate b = None)) \<and>
   (sortBy = ''end_date'' \<longrightarrow> (endDate a = None) = (endDate b = None)) \<longrightarrow>
     sortTasks_compare h sortBy desc a b = - sortTasks_compare h sortBy asc a b \<and>
     (sortTasks_compare h sortBy asc a b < 0 \<longrightarrow> 0 < sortTasks_compare h sortBy desc a b)"
proof (intro conjI impI)
  assume hyp: "(\<forall>s t. sgn (localeCompare h t s) = - sgn (localeCompare h s t)) \<and>
    (sortBy = ''start_date'' \<longrightarrow> (startDate a = None) = (startDate b = None)) \<and>
    (sortBy = ''end_date'' \<longrightarrow> (endDate a = None) = (endDate b = None))"
  then have anti: "\<forall>s t. sgn (localeCompare h t s) = - sgn (localeCompare h s t)"
    and dates: "(sortBy = ''start_date'' \<longrightarrow> (startDate a = None) = (startDate b = None)) \<and>
      (sortBy = ''end_date'' \<longrightarrow> (endDate a = None) = (endDate b = None))"
    by blast+
  show swap: "sortTasks_compare h sortBy desc a b = - sortTasks_compare h sortBy asc a b"
  proof (cases "sort_values h sortBy a b")
    case (Numbers x y)
    then show ?thesis
      by (simp add: sortTasks_compare_def minus_sign_swap [of y x])
  next
    case (Values v w)
    have "(v = SNull) = (w = SNull)"
      using Values dates
      by (auto simp add: sort_values_def date_value_def Let_def
          split: if_splits option.splits)
    from compare_values_swap [OF anti this] Values show ?thesis
      by (simp add: sortTasks_compare_def)
  qed
  assume "sortTasks_compare h sortBy asc a b < 0"
  with swap show "0 < sortTasks_compare h sortBy desc a b" by simp
qed

theorem sortTasks_compare_desc_reverses_witness:
  "(\<forall>s t. sgn (localeCompare example_host t s) = - sgn (localeCompare example_host s t)) \<and>
   (startDate task_march = None) = (startDate task_april = None) \<and>
   sortTasks_compare example_host ''start_date'' asc task_march task_april = - 1 \<and>
   sortTasks_compare example_host ''start_date'' desc task_march task_april = 1 \<and>
   (endDate task_april = None) = (endDate task_march = None) \<and>
   sortTasks_compare example_host ''end_date'' asc task_april task_march = 1 \<and>
   sortTasks_compare example_host ''end_date'' desc task_april task_march = - 1 \<and>
   sortTasks_compare example_host ''name'' asc task_april task_march = - 1 \<and>
   sortTasks_compare example_host ''name'' desc task_april task_march = 1 \<and>
   sortTasks_compare example_host ''status'' asc task_april task_march = - 1 \<and>
   sortTasks_compare example_host ''status'' desc task_april task_march = 1"
proof -
  note anti = compare_codes_antisymmetric
  have dates: "(startDate task_march = None) = (startDate task_april = None)"
    "(endDate task_april = None) = (endDate task_march = None)"
    by (simp_all add: task_march_def task_april_def plain_task_def)
  have asc_values:
    "sortTasks_compare example_host ''start_date'' asc task_march task_april = - 1"
    "sortTasks_compare example_host ''end_date'' asc task_april task_march = 1"
    "sortTasks_compare example_host ''name'' asc task_april task_march = - 1"
    "sortTasks_compare example_host ''status'' asc task_april task_march = - 1"
    by (simp_all add: sortTasks_compare_def sort_values_def task_march_def task_april_def
        plain_task_def date_value_def null_default_def Date_UTC_def days_from_civil_def
        ms_per_day_def toLowerCase_def lower_char_def example_host_def column_text_def)
  have reversed: "sortTasks_compare example_host k desc a b
      = - sortTasks_compare example_host k asc a b"
    if "(k = ''start_date'' \<longrightarrow> (startDate a = None) = (startDate b = None)) \<and>
        (k = ''end_date'' \<longrightarrow> (endDate a = None) = (endDate b = None))"
    for k a b
    using sortTasks_compare_desc_reverses [of example_host k a b] conjI [OF anti that]
    by blast
  have 1: "sortTasks_compare example_host ''start_date'' desc task_march task_april = 1"
    using reversed [of "''start_date''" task_march task_april] dates asc_values by simp
  have 2: "sortTasks_compare example_host ''end_date'' desc task_april task_march = - 1"
    using reversed [of "''end_date''" task_april task_march] dates asc_values by simp
  have 3: "sortTasks_compare example_host ''name'' desc task_april task_march = 1"
    using reversed [of "''name''" task_april task_march] asc_values by simp
  have 4: "sortTasks_compare example_host ''status'' desc task_april task_march = 1"
    using reversed [of "''status''" task_april task_march] asc_values by simp
  show ?thesis
    by (intro conjI anti dates asc_values 1 2 3 4)
qed


lemma compare_absent_cost:
  "sortTasks_compare example_host ''cost'' asc task_open_start task_cost = - 1"
  "sortTasks_compare example_host ''cost'' asc task_cost task_open_start = - 1"
  by (simp_all add: sortTasks_compare_def sort_values_def task_open_start_def task_cost_def
      plain_task_def null_default_def column_text_def column_number_def example_host_def
      example_parse_def example_parseFloat_def toLowerCase_def lower_char_def)




subsection \<open>The bar\<close>





subsection \<open>Dragging\<close>

text \<open>In a zone with a constant offset the days are added to the time value.\<close>

lemma moment_add_constant_offset:
  assumes "\<forall>t. LocalTime h t = t + c \<and> UTC h t = t - c"
  shows "moment_add h d n = moment_add_days d n"
  using assms by (simp add: moment_add_def moment_add_days_def)

lemma spring_dates:
  "Date_UTC 2024 3 8 = 1709856000000" "Date_UTC 2024 3 12 = 1710201600000"
  by (simp_all add: Date_UTC_def days_from_civil_def ms_per_day_def)

text \<open>
  Claim C4 says that a move shifts both ends by the same number of days and keeps the
  duration. It fails in a zone with daylight saving time, where the days are added to the
  local time: in New York, moving the task from 2024-03-08 to 2024-03-12 (00:00 UTC, four
  days) by three days, across the night the clocks go forward, emits a start at 23:00 UTC of
  2024-03-10 and an end at 00:00 UTC of 2024-03-15, four days and one hour apart.
\<close>

theorem handleMouseMove_duration_counterexample:
  "startDate task_spring = Some 1709856000000 \<and>
   endDate task_spring = Some 1710201600000 \<and>
   \<lfloor>(160 - 100) / (20 :: real) + 1 / 2\<rfloor> = 3 \<and>
   handleMouseMove new_york_host task_spring move 20 True (handleMouseDown task_spring 100) 160
     = Some (''14'', 1710111600000, 1710460800000) \<and>
   (1710111600000 :: int) \<noteq> 1709856000000 + 3 * ms_per_day \<and>
   (1710460800000 :: int) - 1710111600000 \<noteq> 1710201600000 - 1709856000000"
proof -
  have d: "startDate task_spring = Some 1709856000000"
    "endDate task_spring = Some 1710201600000"
    by (simp_all add: task_spring_def plain_task_def spring_dates)
  have r: "\<lfloor>(160 - 100) / (20 :: real) + 1 / 2\<rfloor> = 3" by simp
  have a: "moment_add new_york_host 1709856000000 3 = 1710111600000"
    "moment_add new_york_host 1710201600000 3 = 1710460800000"
    by (simp_all add: moment_add_def new_york_host_def new_york_LocalTime_def new_york_UTC_def
        ms_per_day_def)
  have i: "task_id task_spring = ''14''" by (simp add: task_spring_def plain_task_def)
  have m: "handleMouseMove new_york_host task_spring move 20 True
      (handleMouseDown task_spring 100) 160 = Some (''14'', 1710111600000, 1710460800000)"
    by (simp add: handleMouseMove_def handleMouseDown_def d Let_def a i)
  show ?thesis
    by (intro conjI d r m) (simp_all add: ms_per_day_def)
qed

text \<open>
  Claim C4, amended. For every movement sample of a drag that started on a task whose start
  is not after its end, with a positive day width, and \<open>n\<close> the rounded number of days of the
  movement: a resize at the left keeps the end and emits the start moved by \<open>n\<close> days in the
  zone of the host, or the end when that is after the end; a resize at the right keeps the
  start and emits the end moved by \<open>n\<close> days, or the start when that is before the start; so
  a resize emits a start that is not after the end. A move emits both ends moved by \<open>n\<close>
  days in the zone of the host; in a zone with a constant offset from UTC both ends are
  shifted by \<open>n\<close> times 86400000 ms, the duration is kept and the start is not after the
  end.
\<close>

theorem handleMouseMove_range:
  assumes "startDate task = Some s0" and "endDate task = Some e0" and "s0 \<le> e0"
    and "0 < dayWidth"
  shows "\<exists>s e. handleMouseMove h task type dayWidth True (handleMouseDown task x0) x
               = Some (task_id task, s, e) \<and>
           (type = move \<longrightarrow>
              s = moment_add h s0 \<lfloor>(x - x0) / dayWidth + 1 / 2\<rfloor> \<and>
              e = moment_add h e0 \<lfloor>(x - x0) / dayWidth + 1 / 2\<rfloor> \<and>
              ((\<exists>c. \<forall>t. LocalTime h t = t + c \<and> UTC h t = t - c) \<longrightarrow>
                 s = moment_add_days s0 \<lfloor>(x - x0) / dayWidth + 1 / 2\<rfloor> \<and>
                 e = moment_add_days e0 \<lfloor>(x - x0) / dayWidth + 1 / 2\<rfloor> \<and>
                 e - s = e0 - s0 \<and> s \<le> e)) \<and>
           (type = resize_left \<longrightarrow>
              e = e0 \<and> s = min (moment_add h s0 \<lfloor>(x - x0) / dayWidth + 1 / 2\<rfloor>) e0 \<and>
              s \<le> e) \<and>
           (type = resize_right \<longrightarrow>
              s = s0 \<and> e = max (moment_add h e0 \<lfloor>(x - x0) / dayWidth + 1 / 2\<rfloor>) s0 \<and>
              s \<le> e)"
proof (cases type)
  case move
  define n where "n = \<lfloor>(x - x0) / dayWidth + 1 / 2\<rfloor>"
  have emitted: "handleMouseMove h task type dayWidth True (handleMouseDown task x0) x
      = Some (task_id task, moment_add h s0 n, moment_add h e0 n)"
    using assms(1,2) move
    by (simp add: handleMouseMove_def handleMouseDown_def Let_def n_def)
  have fixed_offset: "moment_add h s0 n = moment_add_days s0 n \<and>
      moment_add h e0 n = moment_add_days e0 n \<and>
      moment_add h e0 n - moment_add h s0 n = e0 - s0 \<and>
      moment_add h s0 n \<le> moment_add h e0 n"
    if "\<exists>c. \<forall>t. LocalTime h t = t + c \<and> UTC h t = t - c"
  proof -
    from that obtain c where "\<forall>t. LocalTime h t = t + c \<and> UTC h t = t - c" ..
    then have "moment_add h d n = moment_add_days d n" for d
      by (rule moment_add_constant_offset)
    with assms(3) show ?thesis by (simp add: moment_add_days_def)
  qed
  from emitted fixed_offset move show ?thesis
    unfolding n_def [symmetric] by blast
next
  case resize_left
  with assms(1,2)
  show ?thesis
    by (auto simp add: handleMouseMove_def handleMouseDown_def Let_def)
next
  case resize_right
  with assms(1,2)
  show ?thesis
    by (auto simp add: handleMouseMove_def handleMouseDown_def Let_def)
qed

theorem handleMouseMove_range_witness:
  "startDate task_march = Some (Date_UTC 2024 3 1) \<and>
   endDate task_march = Some (Date_UTC 2024 3 3) \<and>
   Date_UTC 2024 3 1 \<le> Date_UTC 2024 3 3 \<and> (0 :: real) < 20 \<and>
   (\<exists>c. \<forall>t. LocalTime example_host t = t + c \<and> UTC example_host t = t - c) \<and>
   handleMouseMove example_host task_march resize_left 20 True
     (handleMouseDown task_march 100) 200
     = Some (''6'', Date_UTC 2024 3 3, Date_UTC 2024 3 3) \<and>
   handleMouseMove example_host task_march move 20 True (handleMouseDown task_march 100) 200
     = Some (''6'', Date_UTC 2024 3 6, Date_UTC 2024 3 8) \<and>
   handleMouseMove example_host task_march resize_right 20 True
     (handleMouseDown task_march 100) 0
     = Some (''6'', Date_UTC 2024 3 1, Date_UTC 2024 3 1)"
proof -
  have d: "startDate task_march = Some (Date_UTC 2024 3 1)"
    "endDate task_march = Some (Date_UTC 2024 3 3)"
    by (simp_all add: task_march_def plain_task_def)
  have le: "Date_UTC 2024 3 1 \<le> Date_UTC 2024 3 3"
    by (simp add: Date_UTC_def days_from_civil_def ms_per_day_def)
  have p: "(0 :: real) < 20" by simp
  have "\<forall>t. LocalTime example_host t = t + 0 \<and> UTC example_host t = t - 0"
    by (simp add: example_host_def)
  then have z: "\<exists>c. \<forall>t. LocalTime example_host t = t + c \<and> UTC example_host t = t - c" ..
  have i: "task_id task_march = ''6''" by (simp add: task_march_def plain_task_def)
  have r: "\<lfloor>(200 - 100) / (20 :: real) + 1 / 2\<rfloor> = 5" "\<lfloor>(0 - 100) / (20 :: real) + 1 / 2\<rfloor> = - 5"
    by simp_all
  have a: "moment_add_days (Date_UTC 2024 3 1) 5 = Date_UTC 2024 3 6"
    "moment_add_days (Date_UTC 2024 3 3) 5 = Date_UTC 2024 3 8"
    by (simp_all add: moment_add_days_def Date_UTC_def days_from_civil_def ms_per_day_def)
  have b: "moment_add example_host (Date_UTC 2024 3 1) 5 = Date_UTC 2024 3 6"
    "moment_add example_host (Date_UTC 2024 3 3) (- 5) = Date_UTC 2024 2 27"
    by (simp_all add: moment_add_def example_host_def Date_UTC_def days_from_civil_def
        ms_per_day_def)
  have c: "min (Date_UTC 2024 3 6) (Date_UTC 2024 3 3) = Date_UTC 2024 3 3"
    "max (Date_UTC 2024 2 27) (Date_UTC 2024 3 1) = Date_UTC 2024 3 1"
    by (simp_all add: Date_UTC_def days_from_civil_def ms_per_day_def)
  from handleMouseMove_range [OF d le p, of example_host resize_left 100 200]
  have 1: "handleMouseMove example_host task_march resize_left 20 True
      (handleMouseDown task_march 100) 200 = Some (''6'', Date_UTC 2024 3 3, Date_UTC 2024 3 3)"
    by (auto simp add: i r b c)
  from handleMouseMove_range [OF d le p, of example_host move 100 200] z
  have 2: "handleMouseMove example_host task_march move 20 True
      (handleMouseDown task_march 100) 200 = Some (''6'', Date_UTC 2024 3 6, Date_UTC 2024 3 8)"
    by (auto simp add: i r a)
  from handleMouseMove_range [OF d le p, of example_host resize_right 100 0]
  have 3: "handleMouseMove example_host task_march resize_right 20 True
      (handleMouseDown task_march 100) 0 = Some (''6'', Date_UTC 2024 3 1, Date_UTC 2024 3 1)"
    by (auto simp add: i r b c)
  show ?thesis
    by (intro conjI d le p z 1 2 3)
qed

subsection \<open>The window of the chart\<close>

lemma fold_push_dates:
  "fold push_dates ts acc =
     acc @ concat (map (\<lambda>t. (case startDate t of None \<Rightarrow> [] | Some s \<Rightarrow> [s])
                            @ (case endDate t of None \<Rightarrow> [] | Some e \<Rightarrow> [e])) ts)"
  by (induction ts arbitrary: acc) (simp_all add: push_dates_def)

lemma set_task_dates:
  "set (task_dates ts) = {d. \<exists>t \<in> set ts. startDate t = Some d \<or> endDate t = Some d}"
  by (auto simp add: task_dates_def fold_push_dates split: option.splits)

lemma task_dates_validTasks_not_empty:
  assumes "validTasks tasks \<noteq> []"
  shows "task_dates (validTasks tasks) \<noteq> []"
proof -
  from assms obtain t where "t \<in> set (validTasks tasks)"
    by (cases "validTasks tasks") auto
  then obtain s where "t \<in> set (validTasks tasks)" "startDate t = Some s"
    by (auto simp add: validTasks_def)
  then have "s \<in> set (task_dates (validTasks tasks))"
    unfolding set_task_dates by blast
  then show ?thesis by auto
qed

lemma Math_min_of_Min: "xs \<noteq> [] \<Longrightarrow> Math_min_of xs = Some (Min (set xs))"
proof (cases xs)
  case Nil
  assume "xs \<noteq> []"
  with Nil show ?thesis by simp
next
  case (Cons x ys)
  with Min.set_eq_fold [of x ys] show ?thesis by simp
qed

lemma Math_max_of_Max: "xs \<noteq> [] \<Longrightarrow> Math_max_of xs = Some (Max (set xs))"
proof (cases xs)
  case Nil
  assume "xs \<noteq> []"
  with Nil show ?thesis by simp
next
  case (Cons x ys)
  with Max.set_eq_fold [of x ys] show ?thesis by simp
qed

lemma padded_days:
  assumes "mn \<le> mx"
  shows "moment_diff_days (moment_add_days mx 7) (moment_add_days mn (- 7))
           = (mx - mn) div ms_per_day + 14"
proof -
  have "mn - 7 * ms_per_day \<le> mx + 7 * ms_per_day"
    using assms by (simp add: ms_per_day_def)
  then have "moment_diff_days (moment_add_days mx 7) (moment_add_days mn (- 7))
      = ((mx + 7 * ms_per_day) - (mn - 7 * ms_per_day)) div ms_per_day"
    by (simp add: moment_diff_days_def moment_add_days_def)
  also have "\<dots> = ((mx - mn) + 14 * ms_per_day) div ms_per_day"
    by (simp add: algebra_simps)
  also have "\<dots> = (mx - mn) div ms_per_day + 14"
    by (simp add: ms_per_day_def)
  finally show ?thesis .
qed

lemma chart_layout_valid:
  assumes "validTasks tasks \<noteq> []"
  shows "chart_layout tasks w =
     \<lparr>lo_validTasks = validTasks tasks,
      lo_dateRange =
        Some \<lparr>range_start = Min (set (task_dates (validTasks tasks))) - 7 * ms_per_day,
              range_end = Max (set (task_dates (validTasks tasks))) + 7 * ms_per_day\<rparr>,
      lo_dayWidth =
        max 20 (max 800 (w - 350)
                / real_of_int ((Max (set (task_dates (validTasks tasks)))
                                - Min (set (task_dates (validTasks tasks)))) div ms_per_day
                               + 14))\<rparr>"
proof -
  let ?D = "task_dates (validTasks tasks)"
  have ne: "?D \<noteq> []" by (rule task_dates_validTasks_not_empty [OF assms])
  then have "Min (set ?D) \<le> Max (set ?D)" by simp
  from padded_days [OF this] Math_min_of_Min [OF ne] Math_max_of_Max [OF ne] assms
  show ?thesis
    by (simp add: chart_layout_def Let_def moment_add_days_def)
qed

lemma chart_layout_empty:
  assumes "validTasks tasks = []"
  shows "chart_layout tasks w = \<lparr>lo_validTasks = [], lo_dateRange = None, lo_dayWidth = 30\<rparr>"
  using assms by (simp add: chart_layout_def)





subsection \<open>Grouping\<close>

lemma place_subtask_insert_after:
  "place_subtask c ts = insert_after (\<lambda>t. parentId c = Some (task_id t)) c ts"
proof -
  have "(case findIndex P ts of None \<Rightarrow> ts
         | Some i \<Rightarrow> take (i + 1) ts @ [c] @ drop (i + 1) ts) = insert_after P c ts"
    for P :: "task \<Rightarrow> bool"
    by (induction ts) (auto split: option.splits)
  then have placed:
    "place_subtask c ts = insert_after (\<lambda>t. Some (task_id t) = parentId c) c ts"
    by (simp add: place_subtask_def)
  have same: "insert_after P c ts = insert_after Q c ts" if "\<forall>x. P x = Q x"
    for P Q :: "task \<Rightarrow> bool"
    using that by (induction ts) auto
  have "\<forall>x. (Some (task_id x) = parentId c) = (parentId c = Some (task_id x))"
    by auto
  then have "insert_after (\<lambda>t. Some (task_id t) = parentId c) c ts
      = insert_after (\<lambda>t. parentId c = Some (task_id t)) c ts"
    by (rule same)
  with placed show ?thesis by (rule trans)
qed

lemma set_insert_after: "set (insert_after P c xs) \<subseteq> insert c (set xs)"
  by (induction xs) auto

lemma insert_after_no_match: "\<forall>x \<in> set xs. \<not> P x \<Longrightarrow> insert_after P c xs = xs"
  by (induction xs) auto

lemma insert_after_append:
  "insert_after P c (xs @ ys) =
     (if \<exists>x \<in> set xs. P x then insert_after P c xs @ ys else xs @ insert_after P c ys)"
  by (induction xs) auto

lemma fold_place_map:
  "fold (\<lambda>subtask groups. map (\<lambda>(k, ts). (k, place_subtask subtask ts)) groups) os gs
     = map (\<lambda>kv. (fst kv, fold place_subtask os (snd kv))) gs"
  by (induction os arbitrary: gs) (simp_all add: case_prod_unfold comp_def)

lemma set_fold_place: "set (fold place_subtask os ts) \<subseteq> set os \<union> set ts"
proof (induction os arbitrary: ts)
  case Nil
  show ?case by simp
next
  case (Cons c os)
  from Cons.IH [of "place_subtask c ts"] set_insert_after [of _ c ts]
  show ?case by (auto simp add: place_subtask_insert_after)
qed

text \<open>The first loop throws exactly when a root task has an inherited name as its group.\<close>

lemma group_loop_snoc:
  "group_loop (xs @ [x]) acc =
     (case group_loop xs acc of None \<Rightarrow> None | Some acc' \<Rightarrow> group_step x acc')"
  by (induction xs arbitrary: acc) (simp_all split: option.splits)

lemma group_step_None:
  "group_step x acc = None \<longleftrightarrow> \<not> is_subtask x \<and> group_key x \<in> set Object_prototype_names"
  by (simp add: group_step_def Let_def is_subtask_def group_key_def)

lemma group_loop_None:
  "group_loop xs acc = None \<longleftrightarrow>
     (\<exists>t \<in> set xs. \<not> is_subtask t \<and> group_key t \<in> set Object_prototype_names)"
proof (induction xs arbitrary: acc)
  case Nil
  show ?case by simp
next
  case (Cons x xs)
  show ?case
  proof (cases "group_step x acc")
    case None
    with group_step_None [of x acc]
    have "\<not> is_subtask x \<and> group_key x \<in> set Object_prototype_names" by simp
    with None show ?thesis by simp
  next
    case (Some acc')
    with group_step_None [of x acc]
    have "\<not> (\<not> is_subtask x \<and> group_key x \<in> set Object_prototype_names)" by simp
    with Some Cons.IH [of acc'] show ?thesis by auto
  qed
qed

lemma groupedTasks_throws:
  "groupedTasks vts = None \<longleftrightarrow>
     (\<exists>t \<in> set vts. \<not> is_subtask t \<and> group_key t \<in> set Object_prototype_names)"
proof -
  have "groupedTasks vts = None \<longleftrightarrow> group_loop vts ([], []) = None"
    by (simp add: groupedTasks_def split: option.splits)
  then show ?thesis by (simp only: group_loop_None)
qed

text \<open>When the first loop returns, the orphans are the subtasks, the keys of the buckets are
  the group keys that are not inherited names, and each bucket holds the root tasks of its
  key, all in the order of the list.\<close>

lemma group_loop_result:
  assumes "group_loop xs ([], []) = Some (gs, os)"
  shows "os = filter is_subtask xs \<and>
         distinct (map fst gs) \<and>
         fst ` set gs = group_key ` {t \<in> set xs. group_key t \<notin> set Object_prototype_names} \<and>
         (\<forall>(k, ts) \<in> set gs. ts = filter (\<lambda>t. \<not> is_subtask t \<and> group_key t = k) xs)"
  using assms
proof (induction xs arbitrary: gs os rule: rev_induct)
  case Nil
  then show ?case by simp
next
  case (snoc x xs)
  from snoc.prems obtain gs0 os0
    where acc: "group_loop xs ([], []) = Some (gs0, os0)"
      and stepped: "group_step x (gs0, os0) = Some (gs, os)"
    by (auto simp add: group_loop_snoc split: option.splits)
  define inh where "inh \<longleftrightarrow> group_key x \<in> set Object_prototype_names"
  define gs1 where
    "gs1 = (if map_of gs0 (group_key x) = None \<and> \<not> inh
            then gs0 @ [(group_key x, [])] else gs0)"
  from snoc.IH [OF acc] have os: "os0 = filter is_subtask xs"
    and dist: "distinct (map fst gs0)"
    and keys: "fst ` set gs0
      = group_key ` {t \<in> set xs. group_key t \<notin> set Object_prototype_names}"
    and buckets: "\<forall>(k, ts) \<in> set gs0. ts = filter (\<lambda>t. \<not> is_subtask t \<and> group_key t = k) xs"
    by blast+
  have none: "map_of gs0 (group_key x) = None \<longleftrightarrow> group_key x \<notin> fst ` set gs0"
    by (simp add: map_of_eq_None_iff)
  have dist1: "distinct (map fst gs1)"
    using dist none by (auto simp add: gs1_def)
  have keys1: "fst ` set gs1
      = group_key ` {t \<in> set (xs @ [x]). group_key t \<notin> set Object_prototype_names}"
  proof (cases inh)
    case True
    then have "gs1 = gs0" by (simp add: gs1_def)
    moreover from True
    have "{t \<in> set (xs @ [x]). group_key t \<notin> set Object_prototype_names}
        = {t \<in> set xs. group_key t \<notin> set Object_prototype_names}"
      by (auto simp add: inh_def)
    ultimately show ?thesis using keys by (simp only:)
  next
    case False
    then have "{t \<in> set (xs @ [x]). group_key t \<notin> set Object_prototype_names}
        = insert x {t \<in> set xs. group_key t \<notin> set Object_prototype_names}"
      by (auto simp add: inh_def)
    then have "group_key ` {t \<in> set (xs @ [x]). group_key t \<notin> set Object_prototype_names}
        = insert (group_key x) (fst ` set gs0)"
      by (simp only: keys image_insert)
    moreover have "fst ` set gs1 = insert (group_key x) (fst ` set gs0)"
      using False none by (auto simp add: gs1_def)
    ultimately show ?thesis by (simp only:)
  qed
  have empty: "[] = filter (\<lambda>t. \<not> is_subtask t \<and> group_key t = group_key x) xs"
    if "group_key x \<notin> fst ` set gs0" and "\<not> inh"
  proof -
    have "group_key t \<noteq> group_key x" if "t \<in> set xs" for t
    proof
      assume same: "group_key t = group_key x"
      with \<open>\<not> inh\<close> that
      have "t \<in> {t \<in> set xs. group_key t \<notin> set Object_prototype_names}"
        by (simp add: inh_def)
      then have "group_key t \<in> fst ` set gs0"
        unfolding keys by (rule imageI)
      with same \<open>group_key x \<notin> fst ` set gs0\<close> show False by simp
    qed
    then show ?thesis by (induction xs) auto
  qed
  have buckets1: "\<forall>(k, ts) \<in> set gs1. ts = filter (\<lambda>t. \<not> is_subtask t \<and> group_key t = k) xs"
    using buckets none empty by (auto simp add: gs1_def)
  have step: "group_step x (gs0, os0) =
      (if is_subtask x then Some (gs1, os0 @ [x])
       else if inh then None
       else Some (map (\<lambda>(k, ts). if k = group_key x then (k, ts @ [x]) else (k, ts)) gs1, os0))"
    by (simp add: group_step_def Let_def gs1_def inh_def is_subtask_def group_key_def)
  show ?case
  proof (cases "is_subtask x")
    case True
    with step stepped have result: "gs = gs1" "os = os0 @ [x]" by simp_all
    have os2: "os0 @ [x] = filter is_subtask (xs @ [x])"
      using os True by simp
    have buckets2: "\<forall>(k, ts) \<in> set gs1.
        ts = filter (\<lambda>t. \<not> is_subtask t \<and> group_key t = k) (xs @ [x])"
      using buckets1 True by simp
    show ?thesis
      unfolding result
      by (intro conjI os2 dist1 keys1 buckets2)
  next
    case False
    define f :: "string \<times> task list \<Rightarrow> string \<times> task list"
      where "f = (\<lambda>(k, ts). if k = group_key x then (k, ts @ [x]) else (k, ts))"
    from False step stepped have "\<not> inh" by (auto split: if_splits)
    with False step stepped have result: "gs = map f gs1" "os = os0"
      by (simp_all add: f_def)
    have fst_f: "fst (f kv) = fst kv" for kv
      by (cases kv) (simp add: f_def)
    then have m: "map fst (map f gs1) = map fst gs1" by simp
    have dist2: "distinct (map fst (map f gs1))"
      by (simp only: m dist1)
    have "fst ` set (map f ys) = fst ` set ys" for ys
      by (induction ys) (simp_all add: fst_f)
    with keys1 have keys2: "fst ` set (map f gs1)
        = group_key ` {t \<in> set (xs @ [x]). group_key t \<notin> set Object_prototype_names}"
      by (simp only:)
    have buckets2: "\<forall>(k, ts) \<in> set (map f gs1).
        ts = filter (\<lambda>t. \<not> is_subtask t \<and> group_key t = k) (xs @ [x])"
    proof (rule ballI, rule case_prodI2)
      fix kv k ts
      assume "kv \<in> set (map f gs1)" and kv: "kv = (k, ts)"
      then obtain k' ts' where in1: "(k', ts') \<in> set gs1" and eq: "(k, ts) = f (k', ts')"
        by auto
      from buckets1 in1 have ts': "ts' = filter (\<lambda>t. \<not> is_subtask t \<and> group_key t = k') xs"
        by blast
      show "ts = filter (\<lambda>t. \<not> is_subtask t \<and> group_key t = k) (xs @ [x])"
      proof (cases "k' = group_key x")
        case True
        with eq have "k = k'" "ts = ts' @ [x]" by (simp_all add: f_def)
        with ts' True False show ?thesis by simp
      next
        case other: False
        with eq have "k = k'" "ts = ts'" by (simp_all add: f_def)
        with ts' other show ?thesis by auto
      qed
    qed
    have os2: "os0 = filter is_subtask (xs @ [x])"
      using os False by simp
    show ?thesis
      unfolding result
      by (intro conjI os2 dist2 keys2 buckets2)
  qed
qed

lemma groupedTasks_buckets:
  assumes "groupedTasks vts = Some gs"
  shows "\<exists>gs0. group_loop vts ([], []) = Some (gs0, filter is_subtask vts) \<and>
           gs = map (\<lambda>kv. (fst kv, fold place_subtask (filter is_subtask vts) (snd kv))) gs0"
proof -
  from assms obtain gs0 os where acc: "group_loop vts ([], []) = Some (gs0, os)"
    and gs: "gs = fold (\<lambda>subtask groups. map (\<lambda>(k, ts). (k, place_subtask subtask ts)) groups)
                    os gs0"
    by (auto simp add: groupedTasks_def split: option.splits)
  from group_loop_result [OF acc] have "os = filter is_subtask vts" by (rule conjunct1)
  with acc gs show ?thesis by (simp add: fold_place_map)
qed

lemma groupedTasks_bucket:
  assumes "groupedTasks vts = Some gs" and "(k, ts) \<in> set gs"
  shows "ts = fold place_subtask (filter is_subtask vts)
                (filter (\<lambda>t. \<not> is_subtask t \<and> group_key t = k) vts)"
proof -
  from groupedTasks_buckets [OF assms(1)] obtain gs0
    where acc: "group_loop vts ([], []) = Some (gs0, filter is_subtask vts)"
      and gs: "gs = map (\<lambda>kv. (fst kv, fold place_subtask (filter is_subtask vts) (snd kv))) gs0"
    by blast
  from assms(2) obtain kv where kv: "kv \<in> set gs0"
    and eq: "(k, ts) = (fst kv, fold place_subtask (filter is_subtask vts) (snd kv))"
    unfolding gs by (auto simp only: set_map)
  from group_loop_result [OF acc]
  have "\<forall>(k, ts) \<in> set gs0. ts = filter (\<lambda>t. \<not> is_subtask t \<and> group_key t = k) vts"
    by (elim conjE)
  moreover from kv have "(fst kv, snd kv) \<in> set gs0" by simp
  ultimately have "snd kv = filter (\<lambda>t. \<not> is_subtask t \<and> group_key t = fst kv) vts"
    by blast
  with eq show ?thesis by simp
qed

lemma groupedTasks_lookup:
  assumes "groupedTasks vts = Some gs" and "t \<in> set vts"
    and "group_key t \<notin> set Object_prototype_names"
  shows "map_of gs (group_key t) =
           Some (fold place_subtask (filter is_subtask vts)
                   (filter (\<lambda>t'. \<not> is_subtask t' \<and> group_key t' = group_key t) vts))"
proof -
  from groupedTasks_buckets [OF assms(1)] obtain gs0
    where acc: "group_loop vts ([], []) = Some (gs0, filter is_subtask vts)"
      and gs: "gs = map (\<lambda>kv. (fst kv, fold place_subtask (filter is_subtask vts) (snd kv))) gs0"
    by blast
  note result = group_loop_result [OF acc]
  from result have d0: "distinct (map fst gs0)"
    by (elim conjE)
  from result have keys: "fst ` set gs0
      = group_key ` {t \<in> set vts. group_key t \<notin> set Object_prototype_names}"
    by (elim conjE)
  from assms(2,3) have "t \<in> {t \<in> set vts. group_key t \<notin> set Object_prototype_names}"
    by simp
  then have "group_key t \<in> fst ` set gs0"
    unfolding keys by (rule imageI)
  then obtain kv where kv: "kv \<in> set gs0" and k: "group_key t = fst kv"
    by (rule imageE)
  define ts where "ts = snd kv"
  have "map fst gs = map fst gs0"
    unfolding gs by (induction gs0) simp_all
  with d0 have d: "distinct (map fst gs)" by (simp only:)
  have "(group_key t, fold place_subtask (filter is_subtask vts) ts)
      = (\<lambda>kv. (fst kv, fold place_subtask (filter is_subtask vts) (snd kv))) kv"
    by (simp only: k ts_def)
  with kv
  have in_gs: "(group_key t, fold place_subtask (filter is_subtask vts) ts) \<in> set gs"
    unfolding gs set_map by (rule rev_image_eqI)
  have "map_of gs (group_key t) = Some (fold place_subtask (filter is_subtask vts) ts)"
    using d in_gs by (rule map_of_is_SomeI)
  also have "fold place_subtask (filter is_subtask vts) ts
      = fold place_subtask (filter is_subtask vts)
          (filter (\<lambda>t'. \<not> is_subtask t' \<and> group_key t' = group_key t) vts)"
    using assms(1) in_gs by (rule groupedTasks_bucket)
  finally show ?thesis .
qed

lemma groupedTasks_subset:
  assumes "groupedTasks vts = Some gs" and "(k, ts) \<in> set gs"
  shows "set ts \<subseteq> set vts"
proof -
  have "set (fold place_subtask (filter is_subtask vts)
               (filter (\<lambda>t. \<not> is_subtask t \<and> group_key t = k) vts))
        \<subseteq> set (filter is_subtask vts)
            \<union> set (filter (\<lambda>t. \<not> is_subtask t \<and> group_key t = k) vts)"
    by (rule set_fold_place)
  also have "\<dots> \<subseteq> set vts" by auto
  finally show ?thesis
    by (simp only: groupedTasks_bucket [OF assms, symmetric])
qed

text \<open>
  The second loop keeps a parent directly followed by its subtasks, the latest first, when
  the parent is the first task of the bucket with its id, no subtask has that id, and no
  subtask is named as a parent.
\<close>

lemma fold_place_block:
  assumes "\<forall>x \<in> set pre. task_id x \<noteq> task_id p"
    and "\<forall>c \<in> set os. task_id c \<noteq> task_id p"
    and "\<forall>c \<in> set os. \<forall>x \<in> set cs \<union> set os. parentId c \<noteq> Some (task_id x)"
  shows "\<exists>pre' post'.
           fold place_subtask os (pre @ p # rev cs @ post)
             = pre' @ p # rev (cs @ filter (\<lambda>c. parentId c = Some (task_id p)) os) @ post'"
  using assms
proof (induction os arbitrary: pre cs post)
  case Nil
  show ?case by auto
next
  case (Cons c os)
  let ?P = "\<lambda>t. parentId c = Some (task_id t)"
  have no_cs: "\<forall>x \<in> set (rev cs). \<not> ?P x"
    using Cons.prems(3) by auto
  show ?case
  proof (cases "parentId c = Some (task_id p)")
    case True
    with Cons.prems(1) have "\<forall>x \<in> set pre. \<not> ?P x" by auto
    with True have placed: "place_subtask c (pre @ p # rev cs @ post)
        = pre @ p # rev (cs @ [c]) @ post"
      by (simp add: place_subtask_insert_after insert_after_append)
    have "\<forall>c' \<in> set os. \<forall>x \<in> set (cs @ [c]) \<union> set os. parentId c' \<noteq> Some (task_id x)"
      using Cons.prems(3) by auto
    with Cons.IH [of pre "cs @ [c]" post] Cons.prems(1,2) True placed
    show ?thesis by auto
  next
    case False
    then have not_p: "\<not> ?P p" by auto
    have later: "\<forall>c' \<in> set os. \<forall>x \<in> set cs \<union> set os. parentId c' \<noteq> Some (task_id x)"
      using Cons.prems(3) by auto
    show ?thesis
    proof (cases "\<exists>x \<in> set pre. ?P x")
      case True
      then have placed: "place_subtask c (pre @ p # rev cs @ post)
          = insert_after ?P c pre @ p # rev cs @ post"
        by (simp add: place_subtask_insert_after insert_after_append)
      have "\<forall>x \<in> set (insert_after ?P c pre). task_id x \<noteq> task_id p"
        using set_insert_after [of ?P c pre] Cons.prems(1,2) by auto
      with Cons.IH [of "insert_after ?P c pre" cs post] Cons.prems(2) later placed False
      show ?thesis by auto
    next
      case no_pre: False
      with not_p no_cs have placed: "place_subtask c (pre @ p # rev cs @ post)
          = pre @ p # rev cs @ insert_after ?P c post"
        using insert_after_append [of ?P c "rev cs" post]
        by (simp add: place_subtask_insert_after insert_after_append)
      with Cons.IH [of pre cs "insert_after ?P c post"] Cons.prems(1,2) later False
      show ?thesis by auto
    qed
  qed
qed

lemma family_grouped:
  "groupedTasks [task_parent, task_child1, task_child2]
     = Some [(''No Group'', [task_parent, task_child2, task_child1])]"
  by (simp add: groupedTasks_def group_step_def place_subtask_def Let_def or_else_def
      Object_prototype_names_def task_parent_def task_child1_def task_child2_def plain_task_def)

text \<open>
  Claim C3 says that every subtask of a parent stands immediately after the parent in the
  bucket of the parent, also when the parent has two subtasks. It fails for a parent with two
  subtasks: each subtask is spliced in directly after the parent, so the one that comes
  first in the list of tasks ends up behind the other.
\<close>

theorem groupedTasks_two_children_counterexample:
  "parentId task_child1 = Some (task_id task_parent) \<and>
   parentId task_child2 = Some (task_id task_parent) \<and>
   validTasks [task_parent, task_child1, task_child2] = [task_parent, task_child1, task_child2] \<and>
   groupedTasks (validTasks [task_parent, task_child1, task_child2])
     = Some [(''No Group'', [task_parent, task_child2, task_child1])] \<and>
   [task_parent, task_child2, task_child1] ! 1 \<noteq> task_child1"
proof -
  have v: "validTasks [task_parent, task_child1, task_child2]
      = [task_parent, task_child1, task_child2]"
    by (simp add: validTasks_def task_parent_def task_child1_def task_child2_def plain_task_def)
  show ?thesis
    by (simp add: v family_grouped)
       (simp add: task_parent_def task_child1_def task_child2_def plain_task_def)
qed

text \<open>
  Claim C3, amended. For a list of tasks with distinct ids in which no subtask is named as a
  parent and no task that is not a subtask has as its group a name that objects inherit
  (otherwise the grouping throws, \<open>groupedTasks_throws\<close>), and every parent task in it that is
  not itself a subtask: the grouping returns, and in the bucket of the parent, the parent is
  directly followed by the block of all its subtasks, the subtask that comes last in the list
  of tasks first. So a subtask stands immediately after its parent exactly when no later
  subtask of the same parent exists; an only subtask always does.
\<close>

theorem groupedTasks_children_block:
  assumes "distinct (map task_id vts)"
    and "\<forall>c \<in> set vts. \<forall>x \<in> set vts.
           is_subtask c \<and> is_subtask x \<longrightarrow> parentId c \<noteq> Some (task_id x)"
    and "\<forall>t \<in> set vts. \<not> is_subtask t \<longrightarrow> group_key t \<notin> set Object_prototype_names"
    and "p \<in> set vts" and "\<not> is_subtask p"
  shows "\<exists>gs pre post.
           groupedTasks vts = Some gs \<and>
           map_of gs (group_key p)
             = Some (pre @ p
                       # rev (filter (\<lambda>c. is_subtask c \<and> parentId c = Some (task_id p)) vts)
                       @ post)"
proof -
  let ?roots = "filter (\<lambda>t. \<not> is_subtask t \<and> group_key t = group_key p) vts"
  let ?os = "filter is_subtask vts"
  from assms(3) have "groupedTasks vts \<noteq> None"
    unfolding groupedTasks_throws by blast
  then obtain gs where gs: "groupedTasks vts = Some gs" by blast
  from assms(3,4,5) have key: "group_key p \<notin> set Object_prototype_names" by blast
  from assms(4,5) have "p \<in> set ?roots" by simp
  then obtain pre post where roots: "?roots = pre @ p # post"
    by (auto dest: split_list)
  from assms(1) have "distinct (map task_id ?roots)" by (rule distinct_map_filter)
  with roots have "task_id p \<notin> task_id ` set pre" by auto
  then have pre: "\<forall>x \<in> set pre. task_id x \<noteq> task_id p" by (metis imageI)
  from assms(1) have inj: "inj_on task_id (set vts)" by (simp add: distinct_map)
  have os: "\<forall>c \<in> set ?os. task_id c \<noteq> task_id p"
  proof
    fix c assume "c \<in> set ?os"
    then have "c \<in> set vts" "c \<noteq> p" using assms(5) by auto
    with inj assms(4) show "task_id c \<noteq> task_id p" by (auto dest: inj_onD)
  qed
  from assms(2)
  have one_level: "\<forall>c \<in> set ?os. \<forall>x \<in> set [] \<union> set ?os. parentId c \<noteq> Some (task_id x)"
    by auto
  from fold_place_block [OF pre os one_level, of post]
  obtain pre' post' where "fold place_subtask ?os (pre @ p # post)
      = pre' @ p # rev (filter (\<lambda>c. parentId c = Some (task_id p)) ?os) @ post'"
    by auto
  moreover have "filter (\<lambda>c. parentId c = Some (task_id p)) ?os
      = filter (\<lambda>c. is_subtask c \<and> parentId c = Some (task_id p)) vts"
    by (simp add: conj_commute)
  ultimately show ?thesis
    using groupedTasks_lookup [OF gs assms(4) key] roots gs by auto
qed

theorem groupedTasks_children_block_witness:
  "distinct (map task_id [task_parent, task_child1, task_child2]) \<and>
   is_subtask task_child1 \<and> is_subtask task_child2 \<and> \<not> is_subtask task_parent \<and>
   group_key task_parent = ''No Group'' \<and> ''No Group'' \<notin> set Object_prototype_names \<and>
   filter (\<lambda>c. is_subtask c \<and> parentId c = Some (task_id task_parent))
     [task_parent, task_child1, task_child2] = [task_child1, task_child2] \<and>
   groupedTasks [task_parent, task_child1, task_child2]
     = Some [(''No Group'', [task_parent, task_child2, task_child1])] \<and>
   map_of [(''No Group'', [task_parent, task_child2, task_child1])] (group_key task_parent)
     = Some ([] @ task_parent # rev [task_child1, task_child2] @ [])"
proof -
  let ?vts = "[task_parent, task_child1, task_child2]"
  have d: "distinct (map task_id ?vts)"
    by (simp add: task_parent_def task_child1_def task_child2_def plain_task_def)
  have s: "is_subtask task_child1" "is_subtask task_child2" "\<not> is_subtask task_parent"
    by (simp_all add: is_subtask_def task_parent_def task_child1_def task_child2_def
        plain_task_def)
  have one_level: "\<forall>c \<in> set ?vts. \<forall>x \<in> set ?vts.
      is_subtask c \<and> is_subtask x \<longrightarrow> parentId c \<noteq> Some (task_id x)"
    using s by (simp add: task_parent_def task_child1_def task_child2_def plain_task_def)
  have k: "group_key task_parent = ''No Group''"
    by (simp add: group_key_def or_else_def task_parent_def plain_task_def)
  have n: "''No Group'' \<notin> set Object_prototype_names"
    by (simp add: Object_prototype_names_def)
  have own: "\<forall>t \<in> set ?vts. \<not> is_subtask t \<longrightarrow> group_key t \<notin> set Object_prototype_names"
    using s k n by simp
  have p: "task_parent \<in> set ?vts" by simp
  have f: "filter (\<lambda>c. is_subtask c \<and> parentId c = Some (task_id task_parent)) ?vts
      = [task_child1, task_child2]"
    using s by (simp add: task_parent_def task_child1_def task_child2_def plain_task_def)
  from groupedTasks_children_block [OF d one_level own p s(3)]
  obtain gs pre post where "groupedTasks ?vts = Some gs"
    and "map_of gs (group_key task_parent)
      = Some (pre @ task_parent # rev [task_child1, task_child2] @ post)"
    unfolding f by blast
  then have g: "groupedTasks ?vts = Some [(''No Group'', [task_parent, task_child2, task_child1])]"
    by (simp add: family_grouped)
  have m: "map_of [(''No Group'', [task_parent, task_child2, task_child1])]
      (group_key task_parent) = Some ([] @ task_parent # rev [task_child1, task_child2] @ [])"
    by (simp add: k)
  show ?thesis
    by (intro conjI d s k n f g m)
qed

subsection \<open>Tasks without a start or without an end\<close>

lemma lo_validTasks_chart_layout: "lo_validTasks (chart_layout tasks w) = validTasks tasks"
  by (cases "validTasks tasks = []") (simp_all add: chart_layout_empty chart_layout_valid)

lemma chart_layout_validTasks:
  "validTasks tasks = validTasks tasks' \<Longrightarrow> chart_layout tasks w = chart_layout tasks' w"
  by (simp add: chart_layout_def)

lemma rendered_rows_validTasks:
  "validTasks tasks = validTasks tasks' \<Longrightarrow> rendered_rows tasks w = rendered_rows tasks' w"
  by (simp add: rendered_rows_def chart_layout_validTasks [of tasks tasks'])

lemma rendered_rows_tasks:
  assumes "rendered_rows tasks w = Some rows" and "row \<in> set rows"
  shows "fst (snd row) \<in> set (validTasks tasks)"
proof -
  from assms obtain gs g ts
    where "groupedTasks (validTasks tasks) = Some gs" "(g, ts) \<in> set gs"
      "fst (snd row) \<in> set ts"
    by (auto simp add: rendered_rows_def Let_def lo_validTasks_chart_layout
        split: if_splits option.splits)
  with groupedTasks_subset show ?thesis by blast
qed

text \<open>
  Claim C10. The chart keeps only the tasks with both dates set, before it computes the
  window and the groups. So a task without a start or without an end (in particular one with
  exactly one of them) is in no bucket, leaves the layout and the rows as they are without
  it, is on no row, and has no bar. (When the grouping throws there is no bucket and no row.)
\<close>

theorem half_dated_task_not_charted:
  assumes "startDate t = None \<or> endDate t = None"
  shows "lo_validTasks (chart_layout tasks w)
           = filter (\<lambda>x. startDate x \<noteq> None \<and> endDate x \<noteq> None) tasks \<and>
         t \<notin> set (lo_validTasks (chart_layout tasks w)) \<and>
         (\<forall>gs. groupedTasks (lo_validTasks (chart_layout tasks w)) = Some gs \<longrightarrow>
            (\<forall>(g, ts) \<in> set gs. t \<notin> set ts)) \<and>
         chart_layout (xs @ t # ys) w = chart_layout (xs @ ys) w \<and>
         rendered_rows (xs @ t # ys) w = rendered_rows (xs @ ys) w \<and>
         (\<forall>rows. rendered_rows tasks w = Some rows \<longrightarrow>
            (\<forall>row \<in> set rows. fst (snd row) \<noteq> t)) \<and>
         GanttBar t ganttStart dayWidth = None"
proof -
  from assms have not_valid: "t \<notin> set (validTasks tasks)"
    by (auto simp add: validTasks_def)
  from assms have same: "validTasks (xs @ t # ys) = validTasks (xs @ ys)"
    by (auto simp add: validTasks_def)
  have buckets: "\<forall>gs. groupedTasks (validTasks tasks) = Some gs \<longrightarrow>
      (\<forall>(g, ts) \<in> set gs. t \<notin> set ts)"
    using groupedTasks_subset [of "validTasks tasks"] not_valid by blast
  have rows: "\<forall>rows. rendered_rows tasks w = Some rows \<longrightarrow>
      (\<forall>row \<in> set rows. fst (snd row) \<noteq> t)"
    using rendered_rows_tasks [of tasks w] not_valid by blast
  have bar: "GanttBar t ganttStart dayWidth = None"
    using assms by (auto simp add: GanttBar_def split: option.splits)
  have filtered: "validTasks tasks = filter (\<lambda>x. startDate x \<noteq> None \<and> endDate x \<noteq> None) tasks"
    by (simp add: validTasks_def)
  show ?thesis
    unfolding lo_validTasks_chart_layout
    by (intro conjI filtered not_valid buckets chart_layout_validTasks [OF same]
        rendered_rows_validTasks [OF same] rows bar)
qed

theorem half_dated_task_not_charted_witness:
  "endDate task_january_open_end = None \<and>
   startDate task_january_open_end = Some (Date_UTC 2024 1 1) \<and>
   lo_validTasks (chart_layout [task_march, task_january_open_end] 1350) = [task_march] \<and>
   groupedTasks (lo_validTasks (chart_layout [task_march, task_january_open_end] 1350))
     = Some [(''No Group'', [task_march])] \<and>
   chart_layout [task_march, task_january_open_end] 1350 = chart_layout [task_march] 1350 \<and>
   map_option (map (\<lambda>row. fst (snd row)))
     (rendered_rows [task_march, task_january_open_end] 1350) = Some [task_march] \<and>
   GanttBar task_january_open_end (Date_UTC 2024 2 23) 20 = None"
proof -
  have e: "endDate task_january_open_end = None"
    "startDate task_january_open_end = Some (Date_UTC 2024 1 1)"
    by (simp_all add: task_january_open_end_def plain_task_def)
  then have h: "startDate task_january_open_end = None \<or> endDate task_january_open_end = None"
    by simp
  have v: "filter (\<lambda>x. startDate x \<noteq> None \<and> endDate x \<noteq> None)
      [task_march, task_january_open_end] = [task_march]"
    by (simp add: task_march_def task_january_open_end_def plain_task_def)
  have g: "groupedTasks [task_march] = Some [(''No Group'', [task_march])]"
    by (simp add: groupedTasks_def group_step_def Let_def or_else_def task_march_def
        plain_task_def Object_prototype_names_def)
  have v1: "validTasks [task_march] = [task_march]"
    by (simp add: validTasks_def task_march_def plain_task_def)
  have r: "map_option (map (\<lambda>row. fst (snd row))) (rendered_rows [task_march] 1350)
      = Some [task_march]"
    by (simp add: rendered_rows_def Let_def lo_validTasks_chart_layout v1 g)
  note charted = half_dated_task_not_charted [OF h, of "[task_march, task_january_open_end]"
      1350 "[task_march]" "[]" "Date_UTC 2024 2 23" 20, unfolded v]
  from charted have 1:
    "lo_validTasks (chart_layout [task_march, task_january_open_end] 1350) = [task_march]"
    by (rule conjunct1)
  from charted have 2:
    "chart_layout [task_march, task_january_open_end] 1350 = chart_layout [task_march] 1350"
    "rendered_rows [task_march, task_january_open_end] 1350 = rendered_rows [task_march] 1350"
    "GanttBar task_january_open_end (Date_UTC 2024 2 23) 20 = None"
    by simp_all
  show ?thesis
    by (simp add: e 1 g 2(2,3) r) (simp add: 2(1))
qed

end
